theory Spec2Isabelle
  imports Main "HOL-Library.Word"
begin

unbundle bit_operations_syntax

section \<open>Faults\<close>

text \<open>
  The Go code has no error returns.  It leaves a call early in three ways: a runtime panic
  (integer division by zero, slice index out of range, method call on a nil interface,
  a slice length that \<^verbatim>\<open>make\<close> or \<^verbatim>\<open>append\<close> refuses), the runtime's fatal error when
  memory runs out, and \<^verbatim>\<open>log.Fatalf\<close>, which ends the process.  All are values of
  \<open>error\<close> here, and every operation that can fault returns \<open>error + 'a\<close>.  The state that
  a faulting call had reached is not part of the result.
\<close>

datatype error =
    DivideByZero | IndexOutOfRange | NilDereference | SliceLenOutOfRange | OutOfMemory
  | Fatal string

section \<open>Allocation\<close>

text \<open>
  \<^verbatim>\<open>make\<close> and a growing \<^verbatim>\<open>append\<close> ask the runtime for memory, and the size they ask
  for grows with the capacity \<open>n\<close> that the caller passes.  The runtime panics
  ("len out of range") when the bytes asked for exceed its limit \<^verbatim>\<open>maxAlloc\<close>, which is
  \<open>2 ^ 48\<close> on a 64-bit platform; this covers a \<^verbatim>\<open>uint\<close> length that is no \<^verbatim>\<open>int\<close>.
  Below that limit the request is granted or the process dies out of memory.  Whether
  memory is there is the environment's matter: it is the parameter \<open>heap\<close>, which
  says for a number of bytes whether the runtime grants them.  A request for no bytes
  allocates nothing.  Allocations whose size does not depend on \<open>n\<close> (the filter
  structs, the hash states, strings) and those inside the libraries are taken to succeed.
\<close>

type_synonym heap = "nat \<Rightarrow> bool"

definition maxAlloc :: nat where
  "maxAlloc = 2 ^ 48"

definition alloc_fault :: "heap \<Rightarrow> nat \<Rightarrow> error option" where
  "alloc_fault heap bytes =
     (if bytes = 0 then None
      else if maxAlloc < bytes then Some SliceLenOutOfRange
      else if \<not> heap bytes then Some OutOfMemory
      else None)"

section \<open>\<^verbatim>\<open>bitset.go\<close>\<close>

text \<open>
  \<^verbatim>\<open>type BitSets []int64\<close>.  A nil slice and an empty slice both have length 0 and are the
  empty list.  Go's \<^verbatim>\<open>uint\<close> has 64 bits (a 64-bit platform), so the conversion of a
  64-bit hash to \<^verbatim>\<open>uint\<close> keeps it; \<^verbatim>\<open>uint\<close> values (indices, counts) are natural
  numbers, since no operation of the program on them can wrap (\<^verbatim>\<open>n/64+1\<close>, \<^verbatim>\<open>i++\<close>
  below \<^verbatim>\<open>k\<close>, \<^verbatim>\<open>%\<close>).  A capacity past the range of \<^verbatim>\<open>uint\<close>, which no caller can
  pass, is refused by the allocation like every capacity that is too large.
\<close>

type_synonym int64 = "64 word"
type_synonym BitSets = "int64 list"

text \<open>\<^verbatim>\<open>make(BitSets, n/64+1)\<close>: \<open>n div 64 + 1\<close> words of 8 bytes, all zero.\<close>

definition NewBitSets :: "heap \<Rightarrow> nat \<Rightarrow> error + BitSets" where
  "NewBitSets heap n =
     (case alloc_fault heap ((n div 64 + 1) * 8) of
        Some e \<Rightarrow> Inl e
      | None \<Rightarrow> Inr (replicate (n div 64 + 1) 0))"

text \<open>\<^verbatim>\<open>bs[index] |= 1 << bit\<close>; indexing past the slice panics.\<close>

definition BitSets_Set :: "BitSets \<Rightarrow> nat \<Rightarrow> error + BitSets" where
  "BitSets_Set bs index =
     (let idx = index div 64; bit = index mod 64
      in if idx < length bs then Inr (bs[idx := (bs ! idx) OR push_bit bit 1])
         else Inl IndexOutOfRange)"

text \<open>\<^verbatim>\<open>bs[index] ^= 1 << bit\<close>.\<close>

definition BitSets_Unset :: "BitSets \<Rightarrow> nat \<Rightarrow> error + BitSets" where
  "BitSets_Unset bs index =
     (let idx = index div 64; bit = index mod 64
      in if idx < length bs then Inr (bs[idx := (bs ! idx) XOR push_bit bit 1])
         else Inl IndexOutOfRange)"

text \<open>\<^verbatim>\<open>word := bs[index]; return (word | (1 << bit)) == word\<close>.\<close>

definition BitSets_IsSet :: "BitSets \<Rightarrow> nat \<Rightarrow> error + bool" where
  "BitSets_IsSet bs index =
     (let idx = index div 64; bit = index mod 64
      in if idx < length bs then (let word = bs ! idx in Inr ((word OR push_bit bit 1) = word))
         else Inl IndexOutOfRange)"


section \<open>The hash libraries\<close>

text \<open>
  \<^verbatim>\<open>HashData\<close> calls two libraries that are not part of the repository:
  \<^verbatim>\<open>crypto/sha256\<close> and \<^verbatim>\<open>github.com/spaolacci/murmur3\<close>.  They are written out here from
  their published algorithms (FIPS 180-4; MurmurHash3 x64 128, of which \<^verbatim>\<open>Sum64\<close> returns
  the first half), so that the filter can be run on concrete keys; the section on
  concrete values checks them on published test vectors.  No general theorem below
  unfolds them: the properties of the filter hold for whatever value \<^verbatim>\<open>HashData\<close>
  returns.
\<close>

type_synonym byte = "8 word"
type_synonym uint32 = "32 word"
type_synonym uint64 = "64 word"

subsection \<open>SHA-256\<close>

definition rotr32 :: "nat \<Rightarrow> uint32 \<Rightarrow> uint32" where
  "rotr32 r x = drop_bit r x OR push_bit (32 - r) x"

text \<open>The round constants, eight rounds to a row.\<close>

definition sha256_K :: "uint32 list" where
  "sha256_K = concat [
    [0x428a2f98, 0x71374491, 0xb5c0fbcf, 0xe9b5dba5, 0x3956c25b, 0x59f111f1, 0x923f82a4, 0xab1c5ed5],
    [0xd807aa98, 0x12835b01, 0x243185be, 0x550c7dc3, 0x72be5d74, 0x80deb1fe, 0x9bdc06a7, 0xc19bf174],
    [0xe49b69c1, 0xefbe4786, 0x0fc19dc6, 0x240ca1cc, 0x2de92c6f, 0x4a7484aa, 0x5cb0a9dc, 0x76f988da],
    [0x983e5152, 0xa831c66d, 0xb00327c8, 0xbf597fc7, 0xc6e00bf3, 0xd5a79147, 0x06ca6351, 0x14292967],
    [0x27b70a85, 0x2e1b2138, 0x4d2c6dfc, 0x53380d13, 0x650a7354, 0x766a0abb, 0x81c2c92e, 0x92722c85],
    [0xa2bfe8a1, 0xa81a664b, 0xc24b8b70, 0xc76c51a3, 0xd192e819, 0xd6990624, 0xf40e3585, 0x106aa070],
    [0x19a4c116, 0x1e376c08, 0x2748774c, 0x34b0bcb5, 0x391c0cb3, 0x4ed8aa4a, 0x5b9cca4f, 0x682e6ff3],
    [0x748f82ee, 0x78a5636f, 0x84c87814, 0x8cc70208, 0x90befffa, 0xa4506ceb, 0xbef9a3f7, 0xc67178f2]]"

definition sha256_init :: "uint32 list" where
  "sha256_init = [0x6a09e667, 0xbb67ae85, 0x3c6ef372, 0xa54ff53a,
                  0x510e527f, 0x9b05688c, 0x1f83d9ab, 0x5be0cd19]"

fun be32 :: "byte list \<Rightarrow> uint32" where
  "be32 [] = 0"
| "be32 (b # bs) = push_bit (8 * length bs) (ucast b) OR be32 bs"

fun chunks :: "nat \<Rightarrow> 'a list \<Rightarrow> 'a list list" where
  "chunks n [] = []"
| "chunks n (x # xs) = (x # take (n - 1) xs) # chunks n (drop (n - 1) xs)"

definition be_bytes32 :: "uint32 \<Rightarrow> byte list" where
  "be_bytes32 v = [ucast (drop_bit 24 v), ucast (drop_bit 16 v), ucast (drop_bit 8 v), ucast v]"

definition be_bytes64 :: "uint64 \<Rightarrow> byte list" where
  "be_bytes64 v = be_bytes32 (ucast (drop_bit 32 v)) @ be_bytes32 (ucast v)"

definition sha256_pad :: "byte list \<Rightarrow> byte list" where
  "sha256_pad m = m @ [0x80] @ replicate ((119 - length m mod 64) mod 64) 0 @ be_bytes64 (8 * of_nat (length m))"

definition ssig0 :: "uint32 \<Rightarrow> uint32" where
  "ssig0 x = rotr32 7 x XOR rotr32 18 x XOR drop_bit 3 x"
definition ssig1 :: "uint32 \<Rightarrow> uint32" where
  "ssig1 x = rotr32 17 x XOR rotr32 19 x XOR drop_bit 10 x"
definition bsig0 :: "uint32 \<Rightarrow> uint32" where
  "bsig0 x = rotr32 2 x XOR rotr32 13 x XOR rotr32 22 x"
definition bsig1 :: "uint32 \<Rightarrow> uint32" where
  "bsig1 x = rotr32 6 x XOR rotr32 11 x XOR rotr32 25 x"

text \<open>The message schedule is built newest word first, so \<open>ws ! 1\<close> is the word two steps back.\<close>

fun sha256_sched :: "nat \<Rightarrow> uint32 list \<Rightarrow> uint32 list" where
  "sha256_sched 0 ws = ws"
| "sha256_sched (Suc c) ws =
     sha256_sched c ((ssig1 (ws ! 1) + ws ! 6 + ssig0 (ws ! 14) + ws ! 15) # ws)"

fun sha256_round :: "uint32 list \<Rightarrow> uint32 \<times> uint32 \<Rightarrow> uint32 list" where
  "sha256_round [a, b, c, d, e, f, g, h] (k, w) =
     (let t1 = h + bsig1 e + ((e AND f) XOR (NOT e AND g)) + k + w;
          t2 = bsig0 a + ((a AND b) XOR (a AND c) XOR (b AND c))
      in [t1 + t2, a, b, c, d + t1, e, f, g])"
| "sha256_round s _ = s"

definition sha256_block :: "uint32 list \<Rightarrow> byte list \<Rightarrow> uint32 list" where
  "sha256_block hs blk =
     (let w = rev (sha256_sched 48 (rev (map be32 (chunks 4 blk))))
      in map2 (+) hs (foldl sha256_round hs (zip sha256_K w)))"

definition sha256 :: "byte list \<Rightarrow> byte list" where
  "sha256 m = concat (map be_bytes32
                 (foldl sha256_block sha256_init (chunks 64 (sha256_pad m))))"

subsection \<open>MurmurHash3, x64 128-bit variant\<close>

definition rotl64 :: "nat \<Rightarrow> uint64 \<Rightarrow> uint64" where
  "rotl64 r x = push_bit r x OR drop_bit (64 - r) x"

fun le64 :: "byte list \<Rightarrow> uint64" where
  "le64 [] = 0"
| "le64 (b # bs) = ucast b OR push_bit 8 (le64 bs)"

definition c1 :: uint64 where "c1 = 0x87c37b91114253d5"
definition c2 :: uint64 where "c2 = 0x4cf5ad432745937f"

definition mixk1 :: "uint64 \<Rightarrow> uint64" where "mixk1 k = rotl64 31 (k * c1) * c2"
definition mixk2 :: "uint64 \<Rightarrow> uint64" where "mixk2 k = rotl64 33 (k * c2) * c1"

definition bmix :: "uint64 \<times> uint64 \<Rightarrow> byte list \<Rightarrow> uint64 \<times> uint64" where
  "bmix hh blk = (case hh of (h1, h2) \<Rightarrow>
     (let k1 = le64 (take 8 blk); k2 = le64 (drop 8 blk);
          h1 = h1 XOR mixk1 k1;
          h1 = rotl64 27 h1 + h2;
          h1 = h1 * 5 + 0x52dce729;
          h2 = h2 XOR mixk2 k2;
          h2 = rotl64 31 h2 + h1;
          h2 = h2 * 5 + 0x38495ab5
      in (h1, h2)))"

definition fmix64 :: "uint64 \<Rightarrow> uint64" where
  "fmix64 k = (let k = k XOR drop_bit 33 k; k = k * 0xff51afd7ed558ccd;
                   k = k XOR drop_bit 33 k; k = k * 0xc4ceb9fe1a85ec53
               in k XOR drop_bit 33 k)"

definition murmur3_sum128 :: "uint32 \<Rightarrow> byte list \<Rightarrow> uint64 \<times> uint64" where
  "murmur3_sum128 seed p =
     (let nblocks = length p div 16;
          (h1, h2) = foldl bmix (ucast seed, ucast seed) (chunks 16 (take (16 * nblocks) p));
          tail = drop (16 * nblocks) p;
          h2 = (if length tail > 8 then h2 XOR mixk2 (le64 (drop 8 tail)) else h2);
          h1 = (if length tail > 0 then h1 XOR mixk1 (le64 (take 8 tail)) else h1);
          h1 = h1 XOR of_nat (length p);
          h2 = h2 XOR of_nat (length p);
          h1 = h1 + h2;
          h2 = h2 + h1;
          h1 = fmix64 h1;
          h2 = fmix64 h2;
          h1 = h1 + h2;
          h2 = h2 + h1
      in (h1, h2))"

definition murmur3_sum64 :: "uint32 \<Rightarrow> byte list \<Rightarrow> uint64" where
  "murmur3_sum64 seed p = fst (murmur3_sum128 seed p)"

section \<open>\<^verbatim>\<open>bloom_filter.go\<close>\<close>

subsection \<open>HashData\<close>

text \<open>
  \<^verbatim>\<open>shaData := sha256.Sum256(data); m := murmur3.New64WithSeed(uint32(seed));
  m.Write(shaData[:]); return uint(m.Sum64())\<close>.  The conversion \<^verbatim>\<open>uint32(seed)\<close>
  truncates, as \<open>of_nat\<close> into a 32-bit word does.
\<close>

definition HashData :: "byte list \<Rightarrow> nat \<Rightarrow> uint64" where
  "HashData data seed = murmur3_sum64 (of_nat seed) (sha256 data)"

text \<open>\<^verbatim>\<open>[]byte(s)\<close>: a Go string is its bytes.\<close>

definition bytes_of :: "string \<Rightarrow> byte list" where
  "bytes_of s = map (\<lambda>c. of_nat (of_char c)) s"

subsection \<open>The memory backend\<close>

text \<open>\<^verbatim>\<open>type MemoryBloomFilter struct { k uint; bs BitSets }\<close>\<close>

record MemoryBloomFilter =
  mbf_k :: nat
  mbf_bs :: BitSets

definition NewMemoryBloomFilter :: "heap \<Rightarrow> nat \<Rightarrow> nat \<Rightarrow> error + MemoryBloomFilter" where
  "NewMemoryBloomFilter heap n k =
     (case NewBitSets heap n of
        Inl e \<Rightarrow> Inl e
      | Inr bs \<Rightarrow> Inr \<lparr>mbf_k = k, mbf_bs = bs\<rparr>)"

text \<open>
  The loop of \<^verbatim>\<open>Put\<close>: \<^verbatim>\<open>for i := uint(0); i < filter.k; i++ { filter.bs.Set(HashData(data, i) % l) }\<close>
  with \<^verbatim>\<open>l := uint(len(filter.bs))\<close> read once before the loop.  The remainder by
  \<^verbatim>\<open>l = 0\<close> is Go's integer-divide-by-zero panic.
\<close>

function put_loop :: "BitSets \<Rightarrow> nat \<Rightarrow> byte list \<Rightarrow> nat \<Rightarrow> nat \<Rightarrow> error + BitSets" where
  "put_loop bs k data l i =
     (if i < k then
        (if l = 0 then Inl DivideByZero
         else case BitSets_Set bs (unat (HashData data i) mod l) of
                Inl e \<Rightarrow> Inl e
              | Inr bs' \<Rightarrow> put_loop bs' k data l (i + 1))
      else Inr bs)"
  by pat_completeness auto
termination
  by (relation "measure (\<lambda>(bs, k, data, l, i). k - i)") auto

text \<open>
  The methods of \<^verbatim>\<open>*MemoryBloomFilter\<close> are defined on the record scheme, so that they
  are also the methods of the file backend, which embeds \<^verbatim>\<open>*MemoryBloomFilter\<close>.
\<close>

definition MemoryBloomFilter_Put ::
  "'a MemoryBloomFilter_scheme \<Rightarrow> byte list \<Rightarrow> error + 'a MemoryBloomFilter_scheme" where
  "MemoryBloomFilter_Put flt data =
     (let l = length (mbf_bs flt)
      in case put_loop (mbf_bs flt) (mbf_k flt) data l 0 of
           Inl e \<Rightarrow> Inl e
         | Inr bs' \<Rightarrow> Inr (flt\<lparr>mbf_bs := bs'\<rparr>))"

definition MemoryBloomFilter_PutString ::
  "'a MemoryBloomFilter_scheme \<Rightarrow> string \<Rightarrow> error + 'a MemoryBloomFilter_scheme" where
  "MemoryBloomFilter_PutString flt data = MemoryBloomFilter_Put flt (bytes_of data)"

text \<open>
  The loop of \<^verbatim>\<open>Has\<close>:
  \<^verbatim>\<open>if !filter.bs.IsSet(HashData(data, i) % l) { return false }\<close>, and \<^verbatim>\<open>return true\<close>
  after the loop.
\<close>

function has_loop :: "BitSets \<Rightarrow> nat \<Rightarrow> byte list \<Rightarrow> nat \<Rightarrow> nat \<Rightarrow> error + bool" where
  "has_loop bs k data l i =
     (if i < k then
        (if l = 0 then Inl DivideByZero
         else case BitSets_IsSet bs (unat (HashData data i) mod l) of
                Inl e \<Rightarrow> Inl e
              | Inr b \<Rightarrow> if \<not> b then Inr False else has_loop bs k data l (i + 1))
      else Inr True)"
  by pat_completeness auto
termination
  by (relation "measure (\<lambda>(bs, k, data, l, i). k - i)") auto

definition MemoryBloomFilter_Has :: "'a MemoryBloomFilter_scheme \<Rightarrow> byte list \<Rightarrow> error + bool" where
  "MemoryBloomFilter_Has flt data =
     (let l = length (mbf_bs flt)
      in has_loop (mbf_bs flt) (mbf_k flt) data l 0)"

definition MemoryBloomFilter_HasString :: "'a MemoryBloomFilter_scheme \<Rightarrow> string \<Rightarrow> error + bool" where
  "MemoryBloomFilter_HasString flt data = MemoryBloomFilter_Has flt (bytes_of data)"

text \<open>\<^verbatim>\<open>filter.bs = nil\<close>\<close>

definition MemoryBloomFilter_Close :: "MemoryBloomFilter \<Rightarrow> MemoryBloomFilter" where
  "MemoryBloomFilter_Close flt = flt\<lparr>mbf_bs := []\<rparr>"

subsection \<open>The file backend\<close>

text \<open>
  \<^verbatim>\<open>type FileBloomFilter struct { *MemoryBloomFilter; target string }\<close>: the embedded
  filter is the parent record, and \<^verbatim>\<open>Put\<close> and \<^verbatim>\<open>Has\<close> of the file backend are the
  promoted methods of the memory backend.
\<close>

record FileBloomFilter = MemoryBloomFilter +
  fbf_target :: string

text \<open>
  The file system maps a path to a node.  \<^verbatim>\<open>os.Open\<close> and \<^verbatim>\<open>os.Create\<close> fail on a
  \<open>Denied\<close> node (with an error other than "not exist"); \<^verbatim>\<open>os.Open\<close> reports "not exist"
  on a missing path; \<^verbatim>\<open>os.Create\<close> creates a missing file and truncates a regular one.
  A \<open>NoParent\<close> node is a path whose directory is missing: \<^verbatim>\<open>os.Open\<close> reports
  "not exist" and \<^verbatim>\<open>os.Create\<close> fails.

  \<^verbatim>\<open>compress/gzip\<close> and \<^verbatim>\<open>encoding/gob\<close> are outside the repository and are parameters
  of the model: \<open>gob_gzip_encode\<close> is what the gzip writer over the gob encoder leaves in
  the file for a slice (\<open>None\<close> when \<^verbatim>\<open>Encode\<close> returns an error), \<open>gob_gzip_decode\<close> is
  what \<^verbatim>\<open>gzip.NewReader\<close> followed by \<^verbatim>\<open>Decode\<close> makes of a file's content.
\<close>

datatype 'c node = Denied | NoParent | Regular 'c

type_synonym 'c filesystem = "string \<rightharpoonup> 'c node"

datatype decoded = BadGzip | BadGob | Decoded BitSets

record 'c codec =
  gob_gzip_encode :: "BitSets \<Rightarrow> 'c option"
  gob_gzip_decode :: "'c \<Rightarrow> decoded"

definition store :: "'c codec \<Rightarrow> FileBloomFilter \<Rightarrow> 'c filesystem \<Rightarrow> error + 'c filesystem" where
  "store cd flt fs =
     (case fs (fbf_target flt) of
        Some Denied \<Rightarrow> Inl (Fatal ''Open file'')
      | Some NoParent \<Rightarrow> Inl (Fatal ''Open file'')
      | _ \<Rightarrow> (case gob_gzip_encode cd (mbf_bs flt) of
                None \<Rightarrow> Inl (Fatal ''gzip'')
              | Some c \<Rightarrow> Inr (fs(fbf_target flt \<mapsto> Regular c))))"

definition reStore :: "'c codec \<Rightarrow> FileBloomFilter \<Rightarrow> 'c filesystem \<Rightarrow> error + FileBloomFilter" where
  "reStore cd flt fs =
     (case fs (fbf_target flt) of
        None \<Rightarrow> Inr flt
      | Some NoParent \<Rightarrow> Inr flt
      | Some Denied \<Rightarrow> Inl (Fatal ''Open file'')
      | Some (Regular c) \<Rightarrow>
          (case gob_gzip_decode cd c of
             BadGzip \<Rightarrow> Inl (Fatal ''Ungzip'')
           | BadGob \<Rightarrow> Inl (Fatal ''gob decode'')
           | Decoded bs \<Rightarrow> Inr (flt\<lparr>mbf_bs := bs\<rparr>)))"

definition NewFileBloomFilter ::
  "heap \<Rightarrow> 'c codec \<Rightarrow> 'c filesystem \<Rightarrow> string \<Rightarrow> nat \<Rightarrow> nat \<Rightarrow> error + FileBloomFilter" where
  "NewFileBloomFilter heap cd fs target n k =
     (case NewMemoryBloomFilter heap n k of
        Inl e \<Rightarrow> Inl e
      | Inr memoryFilter \<Rightarrow>
          (let flt = \<lparr>mbf_k = mbf_k memoryFilter, mbf_bs = mbf_bs memoryFilter,
                       fbf_target = target\<rparr>
           in reStore cd flt fs))"

text \<open>\<^verbatim>\<open>filter.store(); filter.bs = nil\<close>\<close>

definition FileBloomFilter_Close ::
  "'c codec \<Rightarrow> FileBloomFilter \<Rightarrow> 'c filesystem \<Rightarrow> error + (FileBloomFilter \<times> 'c filesystem)" where
  "FileBloomFilter_Close cd flt fs =
     (case store cd flt fs of
        Inl e \<Rightarrow> Inl e
      | Inr fs' \<Rightarrow> Inr (flt\<lparr>mbf_bs := []\<rparr>, fs'))"

subsection \<open>The remote backend\<close>

text \<open>
  The Redis server is outside the repository.  Its state is a map from keys to values,
  and the five commands the filter sends behave as the Redis documentation says.  A
  value that is not a list is \<open>VOther\<close>: list commands answer it with a WRONGTYPE error.
  The connection is taken to be healthy (every command reaches the server and its reply
  comes back), and no other client changes the keys between two commands.
\<close>

datatype redis_value = VList "string list" | VOther

type_synonym redis = "string \<rightharpoonup> redis_value"

datatype command =
    LLEN string
  | DEL string
  | LPUSH string "string list"
  | LSET string nat string
  | LINDEX string nat

datatype reply = RInt nat | RBulk string | RNil | ROk | RError string

fun Do :: "command \<Rightarrow> redis \<Rightarrow> reply \<times> redis" where
  "Do (LLEN key) st =
     (case st key of
        None \<Rightarrow> (RInt 0, st)
      | Some (VList xs) \<Rightarrow> (RInt (length xs), st)
      | Some VOther \<Rightarrow> (RError ''WRONGTYPE'', st))"
| "Do (DEL key) st =
     (case st key of
        None \<Rightarrow> (RInt 0, st)
      | Some v \<Rightarrow> (RInt 1, st(key := None)))"
| "Do (LPUSH key vals) st =
     (if vals = [] then (RError ''ERR wrong number of arguments'', st)
      else case st key of
             None \<Rightarrow> (RInt (length vals), st(key \<mapsto> VList (rev vals)))
           | Some (VList xs) \<Rightarrow> (RInt (length vals + length xs), st(key \<mapsto> VList (rev vals @ xs)))
           | Some VOther \<Rightarrow> (RError ''WRONGTYPE'', st))"
| "Do (LSET key index v) st =
     (case st key of
        None \<Rightarrow> (RError ''ERR no such key'', st)
      | Some (VList xs) \<Rightarrow>
          (if index < length xs then (ROk, st(key \<mapsto> VList (xs[index := v])))
           else (RError ''ERR index out of range'', st))
      | Some VOther \<Rightarrow> (RError ''WRONGTYPE'', st))"
| "Do (LINDEX key index) st =
     (case st key of
        None \<Rightarrow> (RNil, st)
      | Some (VList xs) \<Rightarrow> (if index < length xs then RBulk (xs ! index) else RNil, st)
      | Some VOther \<Rightarrow> (RError ''WRONGTYPE'', st))"

text \<open>
  \<^verbatim>\<open>cli.Do\<close> of redigo returns a reply and an error; an error reply of the server is
  that error.
\<close>

fun reply_err :: "reply \<Rightarrow> string option" where
  "reply_err (RError e) = Some e"
| "reply_err _ = None"

text \<open>
  redigo's reply helpers.  \<^verbatim>\<open>redis.Int64\<close> gives the integer of an integer reply and an
  error otherwise; \<^verbatim>\<open>redis.String\<close> gives the string of a bulk or status reply and an
  error otherwise (\<^verbatim>\<open>ErrNil\<close> for a nil reply).  \<open>None\<close> is the error.
\<close>

fun redis_Int64 :: "reply \<Rightarrow> nat option" where
  "redis_Int64 (RInt i) = Some i"
| "redis_Int64 _ = None"

fun redis_String :: "reply \<Rightarrow> string option" where
  "redis_String (RBulk s) = Some s"
| "redis_String ROk = Some ''OK''"
| "redis_String _ = None"

text \<open>
  \<^verbatim>\<open>type RedisBloomFilter struct { cli redis.Conn; n uint; k uint }\<close>.  The interface value
  \<^verbatim>\<open>cli\<close> is either nil or a connection.
\<close>

datatype conn = Conn

record RedisBloomFilter =
  rbf_cli :: "conn option"
  rbf_n :: nat
  rbf_k :: nat

text \<open>\<^verbatim>\<open>%d\<close> of an unsigned integer.\<close>

function decimal :: "nat \<Rightarrow> string" where
  "decimal n = (if n < 10 then [char_of (48 + n)]
                else decimal (n div 10) @ [char_of (48 + n mod 10)])"
  by pat_completeness auto
termination
  by (relation "measure (\<lambda>n. n)") auto

text \<open>\<^verbatim>\<open>fmt.Sprintf("_bloomfilter:n%d:k%d", filter.n, filter.k)\<close>\<close>

definition redisKey :: "RedisBloomFilter \<Rightarrow> string" where
  "redisKey flt = ''_bloomfilter:n'' @ decimal (rbf_n flt) @ '':k'' @ decimal (rbf_k flt)"

text \<open>
  \<^verbatim>\<open>NewRedisBloomFilter\<close>.  The error of \<^verbatim>\<open>LLEN\<close> is dropped (\<^verbatim>\<open>length, _ := ...\<close>), which
  leaves \<^verbatim>\<open>length\<close> at 0; the replies of \<^verbatim>\<open>DEL\<close> and \<^verbatim>\<open>LPUSH\<close> are not looked at.  The
  \<^verbatim>\<open>n\<close> nil arguments of \<^verbatim>\<open>LPUSH\<close> are written by redigo as empty strings.  A call on
  a nil \<^verbatim>\<open>cli\<close> panics.  Before \<^verbatim>\<open>DEL\<close> is sent, \<^verbatim>\<open>make([]interface{}, n)\<close> allocates
  \<open>n\<close> interface values of 16 bytes, and \<^verbatim>\<open>append(pushArgs, bs...)\<close> grows the
  one-element \<^verbatim>\<open>pushArgs\<close> to \<open>n + 1\<close> of them when \<open>n > 0\<close>.
\<close>

definition NewRedisBloomFilter ::
  "heap \<Rightarrow> conn option \<Rightarrow> nat \<Rightarrow> nat \<Rightarrow> redis \<Rightarrow> error + (RedisBloomFilter \<times> redis)" where
  "NewRedisBloomFilter heap cli n k st =
     (let flt = \<lparr>rbf_cli = cli, rbf_n = n, rbf_k = k\<rparr>
      in case cli of
           None \<Rightarrow> Inl NilDereference
         | Some c \<Rightarrow>
             (let (r, st0) = Do (LLEN (redisKey flt)) st;
                  len = (case redis_Int64 r of None \<Rightarrow> 0 | Some i \<Rightarrow> i)
              in if len \<noteq> n then
                   (case alloc_fault heap (n * 16) of
                      Some e \<Rightarrow> Inl e
                    | None \<Rightarrow>
                        (let bs = replicate n []
                         in case alloc_fault heap (if n = 0 then 0 else (n + 1) * 16) of
                              Some e \<Rightarrow> Inl e
                            | None \<Rightarrow>
                                (let (r1, st1) = Do (DEL (redisKey flt)) st0;
                                     (r2, st2) = Do (LPUSH (redisKey flt) bs) st1
                                 in Inr (flt, st2))))
                 else Inr (flt, st0)))"

text \<open>
  The loop of \<^verbatim>\<open>Put\<close>.  The arguments of \<^verbatim>\<open>cli.Do\<close> are evaluated before the call, so
  the remainder by \<^verbatim>\<open>n = 0\<close> panics before a nil \<^verbatim>\<open>cli\<close> does.  An error reply to
  \<^verbatim>\<open>LSET\<close> ends the process in \<^verbatim>\<open>log.Fatalf\<close>.
\<close>

function rput_loop :: "RedisBloomFilter \<Rightarrow> byte list \<Rightarrow> nat \<Rightarrow> redis \<Rightarrow> error + redis" where
  "rput_loop flt data i st =
     (if i < rbf_k flt then
        (if rbf_n flt = 0 then Inl DivideByZero
         else case rbf_cli flt of
                None \<Rightarrow> Inl NilDereference
              | Some c \<Rightarrow>
                  (let (r, st') = Do (LSET (redisKey flt) (unat (HashData data i) mod rbf_n flt) ''1'') st
                   in case reply_err r of
                        Some err \<Rightarrow> Inl (Fatal ''LSET'')
                      | None \<Rightarrow> rput_loop flt data (i + 1) st'))
      else Inr st)"
  by pat_completeness auto
termination
  by (relation "measure (\<lambda>(flt, data, i, st). rbf_k flt - i)") auto

definition RedisBloomFilter_Put :: "RedisBloomFilter \<Rightarrow> byte list \<Rightarrow> redis \<Rightarrow> error + redis" where
  "RedisBloomFilter_Put flt data st = rput_loop flt data 0 st"

definition RedisBloomFilter_PutString :: "RedisBloomFilter \<Rightarrow> string \<Rightarrow> redis \<Rightarrow> error + redis" where
  "RedisBloomFilter_PutString flt data st = RedisBloomFilter_Put flt (bytes_of data) st"

text \<open>
  The loop of \<^verbatim>\<open>Has\<close>: \<^verbatim>\<open>value, err := redis.String(cli.Do("LINDEX", key, index))\<close>, fatal on
  an error, \<^verbatim>\<open>return false\<close> when \<^verbatim>\<open>value != "1"\<close>.
\<close>

function rhas_loop :: "RedisBloomFilter \<Rightarrow> byte list \<Rightarrow> nat \<Rightarrow> redis \<Rightarrow> error + (bool \<times> redis)" where
  "rhas_loop flt data i st =
     (if i < rbf_k flt then
        (if rbf_n flt = 0 then Inl DivideByZero
         else case rbf_cli flt of
                None \<Rightarrow> Inl NilDereference
              | Some c \<Rightarrow>
                  (let index = unat (HashData data i) mod rbf_n flt;
                       (r, st') = Do (LINDEX (redisKey flt) index) st
                   in case redis_String r of
                        None \<Rightarrow> Inl (Fatal ''LINDEX'')
                      | Some v \<Rightarrow> if v \<noteq> ''1'' then Inr (False, st')
                                  else rhas_loop flt data (i + 1) st'))
      else Inr (True, st))"
  by pat_completeness auto
termination
  by (relation "measure (\<lambda>(flt, data, i, st). rbf_k flt - i)") auto

definition RedisBloomFilter_Has ::
  "RedisBloomFilter \<Rightarrow> byte list \<Rightarrow> redis \<Rightarrow> error + (bool \<times> redis)" where
  "RedisBloomFilter_Has flt data st = rhas_loop flt data 0 st"

definition RedisBloomFilter_HasString ::
  "RedisBloomFilter \<Rightarrow> string \<Rightarrow> redis \<Rightarrow> error + (bool \<times> redis)" where
  "RedisBloomFilter_HasString flt data st = RedisBloomFilter_Has flt (bytes_of data) st"

text \<open>\<^verbatim>\<open>filter.cli = nil\<close>: no command is sent, the server state is handed back as it came.\<close>

definition RedisBloomFilter_Close :: "RedisBloomFilter \<Rightarrow> redis \<Rightarrow> RedisBloomFilter \<times> redis" where
  "RedisBloomFilter_Close flt st = (flt\<lparr>rbf_cli := None\<rparr>, st)"

declare put_loop.simps [simp del] has_loop.simps [simp del]
declare rput_loop.simps [simp del] rhas_loop.simps [simp del]
declare decimal.simps [simp del]

section \<open>Vocabulary of the properties\<close>

text \<open>The bit of a slice at a bit index, and the element of a remote list that reads "1".\<close>

definition bit_at :: "BitSets \<Rightarrow> nat \<Rightarrow> bool" where
  "bit_at bs index \<longleftrightarrow> index div 64 < length bs \<and> bit (bs ! (index div 64)) (index mod 64)"

definition elem_set :: "redis \<Rightarrow> string \<Rightarrow> nat \<Rightarrow> bool" where
  "elem_set st key index =
     (case st key of
        Some (VList xs) \<Rightarrow> index < length xs \<and> xs ! index = ''1''
      | _ \<Rightarrow> False)"

text \<open>
  The index sequence that the specification gives for a key: for each seed
  \<open>i\<close> in \<open>0..k-1\<close>, the hash of the key under seed \<open>i\<close> reduced modulo the capacity \<open>n\<close>.
  It is written from the specification, to be compared with what the backends do.
\<close>

definition spec_hashes :: "byte list \<Rightarrow> nat \<Rightarrow> nat \<Rightarrow> nat list" where
  "spec_hashes key k n = map (\<lambda>i. unat (HashData key i) mod n) [0..<k]"

text \<open>A sequence of \<^verbatim>\<open>Put\<close> calls on one filter, stopping at the first fault.\<close>

fun put_all ::
  "'a MemoryBloomFilter_scheme \<Rightarrow> byte list list \<Rightarrow> error + 'a MemoryBloomFilter_scheme" where
  "put_all flt [] = Inr flt"
| "put_all flt (x # xs) =
     (case MemoryBloomFilter_Put flt x of Inl e \<Rightarrow> Inl e | Inr flt' \<Rightarrow> put_all flt' xs)"

fun rput_all :: "RedisBloomFilter \<Rightarrow> byte list list \<Rightarrow> redis \<Rightarrow> error + redis" where
  "rput_all flt [] st = Inr st"
| "rput_all flt (x # xs) st =
     (case RedisBloomFilter_Put flt x st of Inl e \<Rightarrow> Inl e | Inr st' \<Rightarrow> rput_all flt xs st')"

text \<open>
  The length that \<^verbatim>\<open>NewRedisBloomFilter\<close> reads for a key:
  \<^verbatim>\<open>length, _ := redis.Int64(cli.Do("LLEN", key))\<close>.
\<close>

definition llen :: "redis \<Rightarrow> string \<Rightarrow> nat" where
  "llen st key = (case redis_Int64 (fst (Do (LLEN key) st)) of None \<Rightarrow> 0 | Some i \<Rightarrow> i)"

text \<open>
  Whether the runtime grants a number of bytes: it does when the request is no fault.
\<close>

definition granted :: "heap \<Rightarrow> nat \<Rightarrow> bool" where
  "granted heap bytes \<longleftrightarrow> alloc_fault heap bytes = None"

text \<open>
  One scenario on each backend: a fresh filter of capacity \<open>n\<close> and hash count \<open>k\<close>
  (no file at the target path; an empty server), the keys \<open>xs\<close> put in order, then one
  \<^verbatim>\<open>Has\<close> query for \<open>q\<close>.
\<close>

definition memory_scenario ::
  "heap \<Rightarrow> nat \<Rightarrow> nat \<Rightarrow> byte list list \<Rightarrow> byte list \<Rightarrow> error + bool" where
  "memory_scenario heap n k xs q =
     (case NewMemoryBloomFilter heap n k of
        Inl e \<Rightarrow> Inl e
      | Inr flt0 \<Rightarrow>
          (case put_all flt0 xs of
             Inl e \<Rightarrow> Inl e
           | Inr flt \<Rightarrow> MemoryBloomFilter_Has flt q))"

definition file_scenario ::
  "heap \<Rightarrow> 'c codec \<Rightarrow> string \<Rightarrow> nat \<Rightarrow> nat \<Rightarrow> byte list list \<Rightarrow> byte list \<Rightarrow> error + bool" where
  "file_scenario heap cd target n k xs q =
     (case NewFileBloomFilter heap cd Map.empty target n k of
        Inl e \<Rightarrow> Inl e
      | Inr flt0 \<Rightarrow>
          (case put_all flt0 xs of
             Inl e \<Rightarrow> Inl e
           | Inr flt \<Rightarrow> MemoryBloomFilter_Has flt q))"

definition remote_scenario ::
  "heap \<Rightarrow> nat \<Rightarrow> nat \<Rightarrow> byte list list \<Rightarrow> byte list \<Rightarrow> error + bool" where
  "remote_scenario heap n k xs q =
     (case NewRedisBloomFilter heap (Some Conn) n k Map.empty of
        Inl e \<Rightarrow> Inl e
      | Inr (flt, st0) \<Rightarrow>
          (case rput_all flt xs st0 of
             Inl e \<Rightarrow> Inl e
           | Inr st1 \<Rightarrow>
               (case RedisBloomFilter_Has flt q st1 of
                  Inl e \<Rightarrow> Inl e
                | Inr (b, st2) \<Rightarrow> Inr b)))"

text \<open>
  Values for the examples: a remote filter with a live client, a codec whose file
  content is the slice itself, and a runtime that has the memory for every request below
  its limit.
\<close>

abbreviation ample :: heap where
  "ample \<equiv> (\<lambda>bytes. True)"

abbreviation live_filter :: "conn \<Rightarrow> nat \<Rightarrow> nat \<Rightarrow> RedisBloomFilter" where
  "live_filter c n k \<equiv> \<lparr>rbf_cli = Some c, rbf_n = n, rbf_k = k\<rparr>"

abbreviation remote_filter :: "nat \<Rightarrow> nat \<Rightarrow> RedisBloomFilter" where
  "remote_filter n k \<equiv> live_filter Conn n k"

abbreviation plain_codec :: "BitSets codec" where
  "plain_codec \<equiv> \<lparr>gob_gzip_encode = Some, gob_gzip_decode = Decoded\<rparr>"

section \<open>Bit-level facts\<close>

lemma exp_bit: "m < 64 \<Longrightarrow> bit (2 ^ m :: int64) j \<longleftrightarrow> j = m"
  by (auto simp add: bit_exp_iff)

lemma or_mask_eq_iff: "m < 64 \<Longrightarrow> (w OR 2 ^ m) = w \<longleftrightarrow> bit (w::int64) m"
proof
  assume m: "m < 64" and e: "(w OR 2 ^ m) = w"
  have "bit (w OR 2 ^ m) m" using m by (simp add: bit_or_iff exp_bit)
  with e show "bit w m" by simp
next
  assume m: "m < 64" and b: "bit w m"
  show "(w OR 2 ^ m) = w"
    by (rule bit_word_eqI) (use m b in \<open>auto simp add: bit_or_iff exp_bit\<close>)
qed

lemma xor_mask_bit: "m < 64 \<Longrightarrow> bit ((w::int64) XOR 2 ^ m) m \<longleftrightarrow> \<not> bit w m"
  by (simp add: bit_xor_iff exp_bit)

lemma xor_mask_twice: "((w::int64) XOR b) XOR b = w"
  by (simp add: xor.assoc)

lemma xor_mask_neq: "m < 64 \<Longrightarrow> (w::int64) XOR 2 ^ m \<noteq> w"
proof
  assume m: "m < 64" and e: "w XOR 2 ^ m = w"
  from xor_mask_bit [OF m, of w] e show False by simp
qed

lemma BitSets_IsSet_bit:
  "index div 64 < length bs \<Longrightarrow>
     BitSets_IsSet bs index = Inr (bit (bs ! (index div 64)) (index mod 64))"
  by (simp add: BitSets_IsSet_def Let_def or_mask_eq_iff)

section \<open>Unset\<close>

text \<open>
  C10.  \<^verbatim>\<open>BitSets.Unset\<close> toggles: on an index inside the slice it succeeds, a second
  \<^verbatim>\<open>Unset\<close> of the same index gives back the original slice, the slice after one
  \<^verbatim>\<open>Unset\<close> differs from the original (so \<^verbatim>\<open>Unset\<close> is an involution and not
  idempotent), and a bit that tested clear before tests set afterwards.
\<close>

theorem Unset_toggles:
  assumes "index div 64 < length bs"
  shows "\<exists>bs'. BitSets_Unset bs index = Inr bs' \<and>
           BitSets_Unset bs' index = Inr bs \<and>
           bs' \<noteq> bs \<and>
           (BitSets_IsSet bs index = Inr False \<longrightarrow> BitSets_IsSet bs' index = Inr True)"
proof -
  let ?i = "index div 64" and ?m = "index mod 64"
  let ?bs' = "bs[?i := (bs ! ?i) XOR push_bit ?m 1]"
  have m: "?m < 64" by simp
  have u1: "BitSets_Unset bs index = Inr ?bs'"
    using assms by (simp add: BitSets_Unset_def Let_def)
  have u2: "BitSets_Unset ?bs' index = Inr bs"
    using assms by (simp add: BitSets_Unset_def Let_def xor_mask_twice)
  have "?bs' ! ?i \<noteq> bs ! ?i"
    using assms xor_mask_neq [OF m] by simp
  then have ne: "?bs' \<noteq> bs" by metis
  have t: "BitSets_IsSet bs index = Inr False \<longrightarrow> BitSets_IsSet ?bs' index = Inr True"
    using assms by (simp add: BitSets_IsSet_bit xor_mask_bit [OF m])
  from u1 u2 ne t show ?thesis by blast
qed

theorem Unset_toggles_witness:
  "NewBitSets ample 100 = Inr [0, 0] \<and>
   (\<exists>bs'. BitSets_Unset [0, 0] 70 = Inr bs' \<and>
         BitSets_Unset bs' 70 = Inr [0, 0] \<and>
         bs' \<noteq> [0, 0] \<and>
         BitSets_IsSet [0, 0] 70 = Inr False \<and>
         BitSets_IsSet bs' 70 = Inr True)"
proof -
  have g: "alloc_fault ample 16 = None"
    by (simp add: alloc_fault_def maxAlloc_def)
  have n: "NewBitSets ample 100 = Inr [0, 0]"
    by (simp add: NewBitSets_def g)
  have r: "(70::nat) div 64 < length [0::int64, 0]" by simp
  have c: "BitSets_IsSet [0, 0] 70 = Inr False"
    by (simp add: BitSets_IsSet_bit)
  from Unset_toggles [OF r] c n show ?thesis by auto
qed

section \<open>Set and IsSet\<close>

lemma Set_in_range:
  "index div 64 < length bs \<Longrightarrow>
   BitSets_Set bs index = Inr (bs[index div 64 := bs ! (index div 64) OR 2 ^ (index mod 64)])"
  by (simp add: BitSets_Set_def Let_def)

lemma Set_out_of_range:
  "\<not> index div 64 < length bs \<Longrightarrow> BitSets_Set bs index = Inl IndexOutOfRange"
  by (simp add: BitSets_Set_def Let_def)

lemma Set_length: "BitSets_Set bs index = Inr bs' \<Longrightarrow> length bs' = length bs"
  by (auto simp add: BitSets_Set_def Let_def split: if_splits)

lemma Set_sets: "BitSets_Set bs index = Inr bs' \<Longrightarrow> bit_at bs' index"
  by (auto simp add: BitSets_Set_def Let_def bit_at_def bit_or_iff exp_bit split: if_splits)

lemma Set_keeps: "BitSets_Set bs index = Inr bs' \<Longrightarrow> bit_at bs j \<Longrightarrow> bit_at bs' j"
  by (auto simp add: BitSets_Set_def Let_def bit_at_def bit_or_iff nth_list_update split: if_splits)

lemma Set_idem:
  assumes "bit_at bs index"
  shows "BitSets_Set bs index = Inr bs"
proof -
  from assms have r: "index div 64 < length bs"
    and b: "bit (bs ! (index div 64)) (index mod 64)" by (simp_all add: bit_at_def)
  from b have "bs ! (index div 64) OR 2 ^ (index mod 64) = bs ! (index div 64)"
    by (simp add: or_mask_eq_iff)
  with r show ?thesis by (simp add: Set_in_range)
qed

lemma IsSet_bit_at: "index div 64 < length bs \<Longrightarrow> BitSets_IsSet bs index = Inr (bit_at bs index)"
  by (simp add: BitSets_IsSet_bit bit_at_def)

section \<open>The loops of the memory backend\<close>

lemma put_loop_length: "put_loop bs k data l i = Inr bs' \<Longrightarrow> length bs' = length bs"
proof (induction bs k data l i rule: put_loop.induct)
  case (1 bs k data l i)
  show ?case
  proof (cases "i < k")
    case False
    with "1.prems" show ?thesis by (simp add: put_loop.simps)
  next
    case True
    with "1.prems" have l: "l \<noteq> 0" by (auto simp add: put_loop.simps [of bs] split: if_splits)
    from True l "1.prems" obtain bs1 where
      s: "BitSets_Set bs (unat (HashData data i) mod l) = Inr bs1" and
      r: "put_loop bs1 k data l (i + 1) = Inr bs'"
      by (auto simp add: put_loop.simps [of bs] split: sum.splits)
    from "1.IH" [OF True l s r] Set_length [OF s] show ?thesis by simp
  qed
qed

lemma put_loop_keeps: "put_loop bs k data l i = Inr bs' \<Longrightarrow> bit_at bs j \<Longrightarrow> bit_at bs' j"
proof (induction bs k data l i rule: put_loop.induct)
  case (1 bs k data l i)
  show ?case
  proof (cases "i < k")
    case False
    with "1.prems" show ?thesis by (simp add: put_loop.simps)
  next
    case True
    with "1.prems" have l: "l \<noteq> 0" by (auto simp add: put_loop.simps [of bs] split: if_splits)
    from True l "1.prems" obtain bs1 where
      s: "BitSets_Set bs (unat (HashData data i) mod l) = Inr bs1" and
      r: "put_loop bs1 k data l (i + 1) = Inr bs'"
      by (auto simp add: put_loop.simps [of bs] split: sum.splits)
    from "1.IH" [OF True l s r] Set_keeps [OF s "1.prems"(2)] show ?thesis by simp
  qed
qed

lemma put_loop_sets:
  "put_loop bs k data l i = Inr bs' \<Longrightarrow> i \<le> j \<Longrightarrow> j < k \<Longrightarrow>
   bit_at bs' (unat (HashData data j) mod l)"
proof (induction bs k data l i rule: put_loop.induct)
  case (1 bs k data l i)
  from "1.prems" have True: "i < k" by simp
  with "1.prems" have l: "l \<noteq> 0" by (auto simp add: put_loop.simps [of bs] split: if_splits)
  from True l "1.prems" obtain bs1 where
    s: "BitSets_Set bs (unat (HashData data i) mod l) = Inr bs1" and
    r: "put_loop bs1 k data l (i + 1) = Inr bs'"
    by (auto simp add: put_loop.simps [of bs] split: sum.splits)
  show ?case
  proof (cases "j = i")
    case True
    with Set_sets [OF s] put_loop_keeps [OF r] show ?thesis by simp
  next
    case False
    with "1.prems" have "i + 1 \<le> j" by simp
    from "1.IH" [OF True l s r this "1.prems"(3)] show ?thesis .
  qed
qed

lemma put_loop_idem:
  "(\<And>j. i \<le> j \<Longrightarrow> j < k \<Longrightarrow> bit_at bs (unat (HashData data j) mod l)) \<Longrightarrow>
   l \<noteq> 0 \<or> k \<le> i \<Longrightarrow> put_loop bs k data l i = Inr bs"
proof (induction bs k data l i rule: put_loop.induct)
  case (1 bs k data l i)
  show ?case
  proof (cases "i < k")
    case False
    then show ?thesis by (simp add: put_loop.simps)
  next
    case True
    with "1.prems"(2) have l: "l \<noteq> 0" by simp
    have s: "BitSets_Set bs (unat (HashData data i) mod l) = Inr bs"
      using "1.prems"(1) [of i] True by (simp add: Set_idem)
    have "put_loop bs k data l (i + 1) = Inr bs"
    proof (rule "1.IH" [OF True l s])
      fix j assume "i + 1 \<le> j" and "j < k"
      then show "bit_at bs (unat (HashData data j) mod l)" using "1.prems"(1) [of j] by simp
    next
      show "l \<noteq> 0 \<or> k \<le> i + 1" using l by simp
    qed
    with True l s show ?thesis by (simp add: put_loop.simps [of bs k data l i])
  qed
qed

lemma put_loop_total:
  "length bs = l \<Longrightarrow> l \<noteq> 0 \<Longrightarrow> \<exists>bs'. put_loop bs k data l i = Inr bs'"
proof (induction bs k data l i rule: put_loop.induct)
  case (1 bs k data l i)
  show ?case
  proof (cases "i < k")
    case False
    then show ?thesis by (simp add: put_loop.simps)
  next
    case True
    let ?idx = "unat (HashData data i) mod l"
    have "?idx < l" using "1.prems" by simp
    then have "?idx div 64 < length bs" using "1.prems"(1) by (simp add: le_less_trans [OF div_le_dividend])
    then obtain bs1 where s: "BitSets_Set bs ?idx = Inr bs1" by (simp add: Set_in_range)
    have "length bs1 = l" using Set_length [OF s] "1.prems"(1) by simp
    from "1.IH" [OF True "1.prems"(2) s this "1.prems"(2)] obtain bs' where
      "put_loop bs1 k data l (i + 1) = Inr bs'" by blast
    with True "1.prems"(2) s show ?thesis by (simp add: put_loop.simps [of bs k data l i])
  qed
qed

lemma has_loop_all_set:
  "(\<And>j. i \<le> j \<Longrightarrow> j < k \<Longrightarrow> bit_at bs (unat (HashData data j) mod l)) \<Longrightarrow>
   l \<noteq> 0 \<or> k \<le> i \<Longrightarrow> has_loop bs k data l i = Inr True"
proof (induction bs k data l i rule: has_loop.induct)
  case (1 bs k data l i)
  show ?case
  proof (cases "i < k")
    case False
    then show ?thesis by (simp add: has_loop.simps)
  next
    case True
    with "1.prems"(2) have l: "l \<noteq> 0" by simp
    have b: "bit_at bs (unat (HashData data i) mod l)" using "1.prems"(1) [of i] True by simp
    then have s: "BitSets_IsSet bs (unat (HashData data i) mod l) = Inr True"
      by (simp add: IsSet_bit_at bit_at_def)
    have "has_loop bs k data l (i + 1) = Inr True"
    proof (rule "1.IH" [OF True l s])
      show "\<not> \<not> True" by simp
    next
      fix j assume "i + 1 \<le> j" and "j < k"
      then show "bit_at bs (unat (HashData data j) mod l)" using "1.prems"(1) [of j] by simp
    next
      show "l \<noteq> 0 \<or> k \<le> i + 1" using l by simp
    qed
    with True l s show ?thesis by (simp add: has_loop.simps [of bs k data l i])
  qed
qed



section \<open>The loops of the remote backend\<close>

lemma elem_set_iff:
  "elem_set st key index \<longleftrightarrow> (\<exists>xs. st key = Some (VList xs) \<and> index < length xs \<and> xs ! index = ''1'')"
  by (auto simp add: elem_set_def split: option.splits redis_value.splits)

lemma reply_err_ROk: "reply_err ROk = None"
  by simp

lemma LSET_ok:
  assumes "Do (LSET key index v) st = (r, st')" and "\<And>e. r \<noteq> RError e"
  shows "\<exists>xs. st key = Some (VList xs) \<and> index < length xs \<and> st' = st(key \<mapsto> VList (xs[index := v]))"
  using assms by (auto split: option.splits redis_value.splits if_splits)

lemma LSET_in_range:
  "st key = Some (VList xs) \<Longrightarrow> index < length xs \<Longrightarrow>
   Do (LSET key index v) st = (ROk, st(key \<mapsto> VList (xs[index := v])))"
  by simp

lemma rput_step:
  assumes "i < rbf_k flt" and "rput_loop flt data i st = Inr st2"
  shows "rbf_n flt \<noteq> 0 \<and> rbf_cli flt \<noteq> None \<and>
         (\<exists>xs. st (redisKey flt) = Some (VList xs) \<and>
               unat (HashData data i) mod rbf_n flt < length xs \<and>
               rput_loop flt data (i + 1)
                 (st(redisKey flt \<mapsto> VList (xs[unat (HashData data i) mod rbf_n flt := ''1'']))) = Inr st2)"
proof -
  let ?idx = "unat (HashData data i) mod rbf_n flt"
  from assms have n: "rbf_n flt \<noteq> 0"
    by (auto simp add: rput_loop.simps [of flt data i] split: if_splits)
  from assms n have c: "rbf_cli flt \<noteq> None"
    by (cases "rbf_cli flt") (auto simp add: rput_loop.simps [of flt data i])
  obtain r st' where d: "Do (LSET (redisKey flt) ?idx ''1'') st = (r, st')"
    by (cases "Do (LSET (redisKey flt) ?idx ''1'') st")
  from assms n c d have ne: "\<And>e. r \<noteq> RError e"
    by (auto simp add: rput_loop.simps [of flt data i] split: option.splits)
  from assms n c d ne have r: "rput_loop flt data (i + 1) st' = Inr st2"
    by (cases r) (auto simp add: rput_loop.simps [of flt data i])
  from LSET_ok [OF d ne] r n c show ?thesis by auto
qed

lemma elem_set_upd:
  "st key = Some (VList xs) \<Longrightarrow> index < length xs \<Longrightarrow>
   elem_set (st(key \<mapsto> VList (xs[index := ''1'']))) key index"
  by (simp add: elem_set_def)

lemma elem_set_upd_keeps:
  "st key = Some (VList xs) \<Longrightarrow> elem_set st key j \<Longrightarrow>
   elem_set (st(key \<mapsto> VList (xs[index := ''1'']))) key j"
  by (cases "index < length xs") (auto simp add: elem_set_def nth_list_update)

lemma rput_loop_keeps:
  "rput_loop flt data i st = Inr st2 \<Longrightarrow> elem_set st (redisKey flt) j \<Longrightarrow> elem_set st2 (redisKey flt) j"
proof (induction flt data i st rule: rput_loop.induct)
  case (1 flt data i st)
  show ?case
  proof (cases "i < rbf_k flt")
    case False
    with "1.prems" show ?thesis by (simp add: rput_loop.simps [of flt data i])
  next
    case True
    let ?idx = "unat (HashData data i) mod rbf_n flt"
    from rput_step [OF True "1.prems"(1)] obtain xs c where
      n: "rbf_n flt \<noteq> 0" and c: "rbf_cli flt = Some c" and
      x: "st (redisKey flt) = Some (VList xs)" and b: "?idx < length xs" and
      r: "rput_loop flt data (i + 1) (st(redisKey flt \<mapsto> VList (xs[?idx := ''1'']))) = Inr st2"
      by auto
    have d: "Do (LSET (redisKey flt) ?idx ''1'') st = (ROk, st(redisKey flt \<mapsto> VList (xs[?idx := ''1''])))"
      using x b by simp
    have e: "elem_set (st(redisKey flt \<mapsto> VList (xs[?idx := ''1'']))) (redisKey flt) j"
      using elem_set_upd_keeps [OF x "1.prems"(2)] .
    show ?thesis
      by (rule "1.IH" [OF True n c refl d [symmetric] reply_err_ROk r e])
  qed
qed


lemma rput_loop_sets:
  "rput_loop flt data i st = Inr st2 \<Longrightarrow> i \<le> j \<Longrightarrow> j < rbf_k flt \<Longrightarrow>
   elem_set st2 (redisKey flt) (unat (HashData data j) mod rbf_n flt)"
proof (induction flt data i st rule: rput_loop.induct)
  case (1 flt data i st)
  let ?idx = "unat (HashData data i) mod rbf_n flt"
  from "1.prems" have True: "i < rbf_k flt" by simp
  from rput_step [OF True "1.prems"(1)] obtain xs c where
    n: "rbf_n flt \<noteq> 0" and c: "rbf_cli flt = Some c" and
    x: "st (redisKey flt) = Some (VList xs)" and b: "?idx < length xs" and
    r: "rput_loop flt data (i + 1) (st(redisKey flt \<mapsto> VList (xs[?idx := ''1'']))) = Inr st2"
    by auto
  have d: "Do (LSET (redisKey flt) ?idx ''1'') st = (ROk, st(redisKey flt \<mapsto> VList (xs[?idx := ''1''])))"
    using x b by simp
  show ?case
  proof (cases "j = i")
    case True
    have "elem_set (st(redisKey flt \<mapsto> VList (xs[?idx := ''1'']))) (redisKey flt) ?idx"
      using x b by (rule elem_set_upd [of st "redisKey flt" xs ?idx])
    from rput_loop_keeps [OF r this] True show ?thesis by simp
  next
    case False
    with "1.prems" have le: "i + 1 \<le> j" by simp
    show ?thesis
      by (rule "1.IH" [OF True n c refl d [symmetric] reply_err_ROk r le "1.prems"(3)])
  qed
qed

lemma upd_same:
  assumes "st key = Some (VList xs)" and "index < length xs" and "xs ! index = v"
  shows "st(key \<mapsto> VList (xs[index := v])) = st"
proof -
  from assms have "xs[index := v] = xs" by (simp add: list_update_same_conv)
  with assms(1) show ?thesis by (simp add: fun_upd_idem)
qed

lemma rput_loop_idem:
  "(\<And>j. i \<le> j \<Longrightarrow> j < rbf_k flt \<Longrightarrow>
         elem_set st (redisKey flt) (unat (HashData data j) mod rbf_n flt)) \<Longrightarrow>
   (rbf_n flt \<noteq> 0 \<and> rbf_cli flt \<noteq> None) \<or> rbf_k flt \<le> i \<Longrightarrow>
   rput_loop flt data i st = Inr st"
proof (induction flt data i st rule: rput_loop.induct)
  case (1 flt data i st)
  show ?case
  proof (cases "i < rbf_k flt")
    case False
    then show ?thesis by (simp add: rput_loop.simps [of flt data i])
  next
    case True
    let ?idx = "unat (HashData data i) mod rbf_n flt"
    from True "1.prems"(2) obtain c where n: "rbf_n flt \<noteq> 0" and c: "rbf_cli flt = Some c" by auto
    from "1.prems"(1) [of i] True obtain xs where
      x: "st (redisKey flt) = Some (VList xs)" and b: "?idx < length xs" and v: "xs ! ?idx = ''1''"
      by (auto simp add: elem_set_iff)
    have "st(redisKey flt \<mapsto> VList (xs[?idx := ''1''])) = st"
      using x b v by (rule upd_same [of st "redisKey flt" xs ?idx])
    then have d: "Do (LSET (redisKey flt) ?idx ''1'') st = (ROk, st)"
      using x b by simp
    have "rput_loop flt data (i + 1) st = Inr st"
    proof (rule "1.IH" [OF True n c refl d [symmetric] reply_err_ROk])
      fix j assume "i + 1 \<le> j" and "j < rbf_k flt"
      then show "elem_set st (redisKey flt) (unat (HashData data j) mod rbf_n flt)"
        using "1.prems"(1) [of j] by simp
    next
      show "(rbf_n flt \<noteq> 0 \<and> rbf_cli flt \<noteq> None) \<or> rbf_k flt \<le> i + 1" using n c by simp
    qed
    with True n c d show ?thesis by (simp add: rput_loop.simps [of flt data i])
  qed
qed

lemma rput_loop_total:
  "st (redisKey flt) = Some (VList xs) \<Longrightarrow> rbf_n flt \<le> length xs \<Longrightarrow>
   rbf_n flt \<noteq> 0 \<Longrightarrow> rbf_cli flt \<noteq> None \<Longrightarrow>
   \<exists>st2 xs2. rput_loop flt data i st = Inr st2 \<and> st2 (redisKey flt) = Some (VList xs2) \<and>
             length xs2 = length xs"
proof (induction flt data i st arbitrary: xs rule: rput_loop.induct)
  case (1 flt data i st)
  show ?case
  proof (cases "i < rbf_k flt")
    case False
    with "1.prems" show ?thesis by (simp add: rput_loop.simps [of flt data i])
  next
    case True
    let ?idx = "unat (HashData data i) mod rbf_n flt"
    let ?st1 = "st(redisKey flt \<mapsto> VList (xs[?idx := ''1'']))"
    from "1.prems" obtain c where n: "rbf_n flt \<noteq> 0" and c: "rbf_cli flt = Some c" by auto
    have "?idx < rbf_n flt" using n by simp
    with "1.prems"(2) have b: "?idx < length xs" by simp
    have d: "Do (LSET (redisKey flt) ?idx ''1'') st = (ROk, ?st1)"
      using "1.prems"(1) b by simp
    have "\<exists>st2 xs2. rput_loop flt data (i + 1) ?st1 = Inr st2 \<and>
             st2 (redisKey flt) = Some (VList xs2) \<and> length xs2 = length (xs[?idx := ''1''])"
    proof (rule "1.IH" [OF True n c refl d [symmetric] reply_err_ROk])
      show "?st1 (redisKey flt) = Some (VList (xs[?idx := ''1'']))" by simp
    next
      show "rbf_n flt \<le> length (xs[?idx := ''1''])" using "1.prems"(2) by simp
    qed (use n c in simp_all)
    with True n c d show ?thesis by (simp add: rput_loop.simps [of flt data i])
  qed
qed

lemma LINDEX_frame: "Do (LINDEX key index) st = (r, st') \<Longrightarrow> st' = st"
  by (auto split: option.splits redis_value.splits)

lemma rhas_loop_frame: "rhas_loop flt data i st = Inr (b, st') \<Longrightarrow> st' = st"
proof (induction flt data i st rule: rhas_loop.induct)
  case (1 flt data i st)
  show ?case
  proof (cases "i < rbf_k flt")
    case False
    with "1.prems" show ?thesis by (simp add: rhas_loop.simps [of flt data i])
  next
    case True
    let ?idx = "unat (HashData data i) mod rbf_n flt"
    from True "1.prems" have n: "rbf_n flt \<noteq> 0"
      by (auto simp add: rhas_loop.simps [of flt data i] split: if_splits)
    from True "1.prems" n obtain c where c: "rbf_cli flt = Some c"
      by (cases "rbf_cli flt") (auto simp add: rhas_loop.simps [of flt data i])
    obtain r st1 where d: "Do (LINDEX (redisKey flt) ?idx) st = (r, st1)"
      by (cases "Do (LINDEX (redisKey flt) ?idx) st")
    from LINDEX_frame [OF d] have e: "st1 = st" .
    from True "1.prems" n c d obtain v where v: "redis_String r = Some v"
      by (cases "redis_String r") (auto simp add: rhas_loop.simps [of flt data i])
    show ?thesis
    proof (cases "v \<noteq> ''1''")
      case True
      with \<open>i < rbf_k flt\<close> "1.prems" n c d v e show ?thesis
        by (auto simp add: rhas_loop.simps [of flt data i])
    next
      case False
      with \<open>i < rbf_k flt\<close> "1.prems" n c d v have r: "rhas_loop flt data (i + 1) st1 = Inr (b, st')"
        by (auto simp add: rhas_loop.simps [of flt data i])
      have "st' = st1"
        by (rule "1.IH" [OF \<open>i < rbf_k flt\<close> n c refl refl d [symmetric] v False r])
      with e show ?thesis by simp
    qed
  qed
qed

lemma rhas_loop_all_set:
  "(\<And>j. i \<le> j \<Longrightarrow> j < rbf_k flt \<Longrightarrow>
         elem_set st (redisKey flt) (unat (HashData data j) mod rbf_n flt)) \<Longrightarrow>
   (rbf_n flt \<noteq> 0 \<and> rbf_cli flt \<noteq> None) \<or> rbf_k flt \<le> i \<Longrightarrow>
   rhas_loop flt data i st = Inr (True, st)"
proof (induction flt data i st rule: rhas_loop.induct)
  case (1 flt data i st)
  show ?case
  proof (cases "i < rbf_k flt")
    case False
    then show ?thesis by (simp add: rhas_loop.simps [of flt data i])
  next
    case True
    let ?idx = "unat (HashData data i) mod rbf_n flt"
    from True "1.prems"(2) obtain c where n: "rbf_n flt \<noteq> 0" and c: "rbf_cli flt = Some c" by auto
    from "1.prems"(1) [of i] True obtain xs where
      x: "st (redisKey flt) = Some (VList xs)" and b: "?idx < length xs" and v: "xs ! ?idx = ''1''"
      by (auto simp add: elem_set_iff)
    have d: "Do (LINDEX (redisKey flt) ?idx) st = (RBulk ''1'', st)"
      using x b v by simp
    have "rhas_loop flt data (i + 1) st = Inr (True, st)"
    proof (rule "1.IH" [OF True n c refl refl d [symmetric]])
      show "redis_String (RBulk ''1'') = Some ''1''" by simp
    next
      show "\<not> ''1'' \<noteq> ''1''" by simp
    next
      fix j assume "i + 1 \<le> j" and "j < rbf_k flt"
      then show "elem_set st (redisKey flt) (unat (HashData data j) mod rbf_n flt)"
        using "1.prems"(1) [of j] by simp
    next
      show "(rbf_n flt \<noteq> 0 \<and> rbf_cli flt \<noteq> None) \<or> rbf_k flt \<le> i + 1" using n c by simp
    qed
    with True n c d show ?thesis by (simp add: rhas_loop.simps [of flt data i])
  qed
qed

section \<open>Put and Has of the memory backend\<close>

lemma Put_Inr:
  assumes "MemoryBloomFilter_Put flt x = Inr f1"
  shows "\<exists>bs'. put_loop (mbf_bs flt) (mbf_k flt) x (length (mbf_bs flt)) 0 = Inr bs' \<and>
               f1 = flt\<lparr>mbf_bs := bs'\<rparr>"
  using assms by (auto simp add: MemoryBloomFilter_Put_def Let_def split: sum.splits)

lemma Put_frame:
  assumes "MemoryBloomFilter_Put flt x = Inr f1"
  shows "mbf_k f1 = mbf_k flt" and "length (mbf_bs f1) = length (mbf_bs flt)"
    and "bit_at (mbf_bs flt) j \<Longrightarrow> bit_at (mbf_bs f1) j"
proof -
  from Put_Inr [OF assms] obtain bs' where
    p: "put_loop (mbf_bs flt) (mbf_k flt) x (length (mbf_bs flt)) 0 = Inr bs'" and
    f: "f1 = flt\<lparr>mbf_bs := bs'\<rparr>" by blast
  from f show "mbf_k f1 = mbf_k flt" by simp
  from f put_loop_length [OF p] show "length (mbf_bs f1) = length (mbf_bs flt)" by simp
  assume "bit_at (mbf_bs flt) j"
  from put_loop_keeps [OF p this] f show "bit_at (mbf_bs f1) j" by simp
qed

lemma Put_sets:
  assumes "MemoryBloomFilter_Put flt x = Inr f1" and "j < mbf_k flt"
  shows "bit_at (mbf_bs f1) (unat (HashData x j) mod length (mbf_bs flt))"
proof -
  from Put_Inr [OF assms(1)] obtain bs' where
    p: "put_loop (mbf_bs flt) (mbf_k flt) x (length (mbf_bs flt)) 0 = Inr bs'" and
    f: "f1 = flt\<lparr>mbf_bs := bs'\<rparr>" by blast
  from put_loop_sets [OF p _ assms(2)] f show ?thesis by simp
qed

lemma Put_nonempty:
  assumes "MemoryBloomFilter_Put flt x = Inr f1" and "0 < mbf_k flt"
  shows "length (mbf_bs flt) \<noteq> 0"
proof
  assume "length (mbf_bs flt) = 0"
  with assms show False
    by (simp add: MemoryBloomFilter_Put_def put_loop.simps [of _ _ _ _ 0])
qed

lemma put_all_frame:
  "put_all flt ys = Inr f2 \<Longrightarrow>
     mbf_k f2 = mbf_k flt \<and> length (mbf_bs f2) = length (mbf_bs flt) \<and>
     (bit_at (mbf_bs flt) j \<longrightarrow> bit_at (mbf_bs f2) j)"
proof (induction ys arbitrary: flt)
  case Nil
  then show ?case by simp
next
  case (Cons y ys)
  from Cons.prems obtain f1 where
    p: "MemoryBloomFilter_Put flt y = Inr f1" and r: "put_all f1 ys = Inr f2"
    by (auto split: sum.splits)
  from Cons.IH [OF r] Put_frame [OF p] show ?case by auto
qed

lemma Has_all_set:
  assumes "\<And>j. j < mbf_k flt \<Longrightarrow> bit_at (mbf_bs flt) (unat (HashData x j) mod length (mbf_bs flt))"
    and "length (mbf_bs flt) \<noteq> 0 \<or> mbf_k flt = 0"
  shows "MemoryBloomFilter_Has flt x = Inr True"
  unfolding MemoryBloomFilter_Has_def Let_def
  by (rule has_loop_all_set) (use assms in auto)

lemma memory_no_false_negative:
  assumes p: "MemoryBloomFilter_Put flt x = Inr f1" and a: "put_all f1 ys = Inr f2"
  shows "MemoryBloomFilter_Has f2 x = Inr True"
proof (rule Has_all_set)
  from put_all_frame [OF a] Put_frame(1,2) [OF p]
  have k: "mbf_k f2 = mbf_k flt" and l: "length (mbf_bs f2) = length (mbf_bs flt)" by simp_all
  show "length (mbf_bs f2) \<noteq> 0 \<or> mbf_k f2 = 0"
    using Put_nonempty [OF p] k l by auto
  fix j assume "j < mbf_k f2"
  with k have "j < mbf_k flt" by simp
  from Put_sets [OF p this] put_all_frame [OF a] l
  show "bit_at (mbf_bs f2) (unat (HashData x j) mod length (mbf_bs f2))" by simp
qed

lemma memory_put_twice:
  assumes p: "MemoryBloomFilter_Put flt x = Inr f1"
  shows "MemoryBloomFilter_Put f1 x = Inr f1"
proof -
  from Put_frame(1,2) [OF p]
  have k: "mbf_k f1 = mbf_k flt" and l: "length (mbf_bs f1) = length (mbf_bs flt)" by simp_all
  have "put_loop (mbf_bs f1) (mbf_k f1) x (length (mbf_bs f1)) 0 = Inr (mbf_bs f1)"
  proof (rule put_loop_idem)
    fix j assume "j < mbf_k f1"
    with k have "j < mbf_k flt" by simp
    from Put_sets [OF p this] l
    show "bit_at (mbf_bs f1) (unat (HashData x j) mod length (mbf_bs f1))" by simp
  next
    show "length (mbf_bs f1) \<noteq> 0 \<or> mbf_k f1 \<le> 0"
      using Put_nonempty [OF p] k l by auto
  qed
  then show ?thesis by (simp add: MemoryBloomFilter_Put_def)
qed

lemma Put_total:
  assumes "mbf_bs flt \<noteq> []"
  shows "\<exists>f1. MemoryBloomFilter_Put flt x = Inr f1"
proof -
  from assms have "length (mbf_bs flt) \<noteq> 0" by simp
  from put_loop_total [OF refl this, of "mbf_k flt" x 0]
  show ?thesis by (auto simp add: MemoryBloomFilter_Put_def)
qed

lemma closed_faults:
  assumes "mbf_bs flt = []" and "0 < mbf_k flt"
  shows "MemoryBloomFilter_Put flt x = Inl DivideByZero"
    and "MemoryBloomFilter_Has flt x = Inl DivideByZero"
  using assms
  by (simp_all add: MemoryBloomFilter_Put_def MemoryBloomFilter_Has_def
        put_loop.simps [of _ _ _ _ 0] has_loop.simps [of _ _ _ _ 0])

section \<open>Put and Has of the remote backend\<close>

lemma rPut_sets:
  assumes "RedisBloomFilter_Put flt x st = Inr st1" and "j < rbf_k flt"
  shows "elem_set st1 (redisKey flt) (unat (HashData x j) mod rbf_n flt)"
  using rput_loop_sets [of flt x 0 st st1 j] assms by (simp add: RedisBloomFilter_Put_def)

lemma rPut_keeps:
  assumes "RedisBloomFilter_Put flt x st = Inr st1" and "elem_set st (redisKey flt) j"
  shows "elem_set st1 (redisKey flt) j"
  using rput_loop_keeps [of flt x 0 st st1 j] assms by (simp add: RedisBloomFilter_Put_def)

lemma rPut_live:
  assumes "RedisBloomFilter_Put flt x st = Inr st1" and "0 < rbf_k flt"
  shows "rbf_n flt \<noteq> 0 \<and> rbf_cli flt \<noteq> None"
  using rput_step [of 0 flt x st st1] assms by (simp add: RedisBloomFilter_Put_def)

lemma rput_all_keeps:
  "rput_all flt ys st = Inr st2 \<Longrightarrow> elem_set st (redisKey flt) j \<Longrightarrow> elem_set st2 (redisKey flt) j"
proof (induction ys arbitrary: st)
  case Nil
  then show ?case by simp
next
  case (Cons y ys)
  from Cons.prems(1) obtain st1 where
    p: "RedisBloomFilter_Put flt y st = Inr st1" and r: "rput_all flt ys st1 = Inr st2"
    by (auto split: sum.splits)
  from Cons.IH [OF r rPut_keeps [OF p Cons.prems(2)]] show ?case .
qed

lemma remote_no_false_negative:
  assumes p: "RedisBloomFilter_Put flt x st = Inr st1" and a: "rput_all flt ys st1 = Inr st2"
  shows "RedisBloomFilter_Has flt x st2 = Inr (True, st2)"
  unfolding RedisBloomFilter_Has_def
proof (rule rhas_loop_all_set)
  fix j assume "j < rbf_k flt"
  from rput_all_keeps [OF a rPut_sets [OF p this]]
  show "elem_set st2 (redisKey flt) (unat (HashData x j) mod rbf_n flt)" .
next
  show "(rbf_n flt \<noteq> 0 \<and> rbf_cli flt \<noteq> None) \<or> rbf_k flt \<le> 0"
    using rPut_live [OF p] by auto
qed

lemma remote_put_twice:
  assumes p: "RedisBloomFilter_Put flt x st = Inr st1"
  shows "RedisBloomFilter_Put flt x st1 = Inr st1"
  unfolding RedisBloomFilter_Put_def
proof (rule rput_loop_idem)
  fix j assume "j < rbf_k flt"
  from rPut_sets [OF p this]
  show "elem_set st1 (redisKey flt) (unat (HashData x j) mod rbf_n flt)" .
next
  show "(rbf_n flt \<noteq> 0 \<and> rbf_cli flt \<noteq> None) \<or> rbf_k flt \<le> 0"
    using rPut_live [OF p] by auto
qed

lemma remote_Has_frame: "RedisBloomFilter_Has flt x st = Inr (b, st') \<Longrightarrow> st' = st"
  unfolding RedisBloomFilter_Has_def by (rule rhas_loop_frame)

section \<open>Concrete values\<close>

text \<open>
  \<^verbatim>\<open>HashData\<close> of the one-byte keys "a" and "b" under seed 0, computed by the
  definitions above, and the filter operations on them that the examples below use.
\<close>

text \<open>
  The libraries on known values: the digest of "abc" (FIPS 180-4), and both halves of
  MurmurHash3 of "hello" under seed 0 and of the empty input under seed 1 (the test table
  of the murmur3 package).
\<close>

lemma sha256_abc:
  "sha256 [0x61, 0x62, 0x63] =
     [0xba, 0x78, 0x16, 0xbf, 0x8f, 0x01, 0xcf, 0xea, 0x41, 0x41, 0x40, 0xde, 0x5d, 0xae, 0x22, 0x23,
      0xb0, 0x03, 0x61, 0xa3, 0x96, 0x17, 0x7a, 0x9c, 0xb4, 0x10, 0xff, 0x61, 0xf2, 0x00, 0x15, 0xad]"
  by code_simp

lemma murmur3_hello:
  "murmur3_sum128 0 [0x68, 0x65, 0x6c, 0x6c, 0x6f] = (0xcbd8a7b341bd9b02, 0x5b1e906a48ae1d19)"
  by code_simp

lemma murmur3_empty_seed_1:
  "murmur3_sum128 1 [] = (0x4610abe56eff5cb5, 0x51622daa78f83583)"
  by code_simp

lemma HashData_a_0: "HashData [0x61] 0 = 0xfaded33e8b8b5ae7"
  by code_simp

lemma HashData_b_0: "HashData [0x62] 0 = 0x589810c9b78987f5"
  by code_simp

lemma alloc_fault_ample:
  "0 < bytes \<Longrightarrow> bytes \<le> 2 ^ 48 \<Longrightarrow> alloc_fault ample bytes = None"
  by (simp add: alloc_fault_def maxAlloc_def)

lemma replicate_4: "replicate 4 x = [x, x, x, x]"
  by (simp add: eval_nat_numeral)

lemma NewBitSets_0: "NewBitSets ample 0 = Inr [0]"
  by (simp add: NewBitSets_def alloc_fault_ample)

lemma NewBitSets_64: "NewBitSets ample 64 = Inr [0, 0]"
  by (simp add: NewBitSets_def alloc_fault_ample)

lemma NewBitSets_200: "NewBitSets ample 200 = Inr [0, 0, 0, 0]"
  by (simp add: NewBitSets_def alloc_fault_ample replicate_4)

lemma NewMemoryBloomFilter_64: "NewMemoryBloomFilter ample 64 k = Inr \<lparr>mbf_k = k, mbf_bs = [0, 0]\<rparr>"
  by (simp add: NewMemoryBloomFilter_def NewBitSets_64)

lemma NewMemoryBloomFilter_200:
  "NewMemoryBloomFilter ample 200 k = Inr \<lparr>mbf_k = k, mbf_bs = [0, 0, 0, 0]\<rparr>"
  by (simp add: NewMemoryBloomFilter_def NewBitSets_200)

lemmas mem_eval =
  MemoryBloomFilter_Put_def MemoryBloomFilter_Has_def
  put_loop.simps has_loop.simps BitSets_Set_def BitSets_IsSet_def Let_def
  HashData_a_0 HashData_b_0

lemma Put_a_200:
  "MemoryBloomFilter_Put \<lparr>mbf_k = 1, mbf_bs = [0, 0, 0, 0], \<dots> = z\<rparr> [0x61] =
     Inr \<lparr>mbf_k = 1, mbf_bs = [8, 0, 0, 0], \<dots> = z\<rparr>"
  by (simp add: mem_eval)

lemmas remote_eval =
  RedisBloomFilter_Put_def RedisBloomFilter_Has_def rput_loop.simps rhas_loop.simps Let_def
  HashData_a_0 HashData_b_0

lemma rPut_a_200:
  "RedisBloomFilter_Put (remote_filter 200 1) [0x61]
     [redisKey (remote_filter 200 1) \<mapsto> VList (replicate 200 [])] =
   Inr [redisKey (remote_filter 200 1) \<mapsto>
          VList ((replicate 200 [])[119 := ''1''])]"
  by (simp add: remote_eval)

lemma Put_a_200_low:
  "MemoryBloomFilter_Put \<lparr>mbf_k = 1, mbf_bs = [1, 0, 0, 0], \<dots> = z\<rparr> [0x61] =
     Inr \<lparr>mbf_k = 1, mbf_bs = [9, 0, 0, 0], \<dots> = z\<rparr>"
  by (simp add: mem_eval)

lemma Put_b_200_low:
  "MemoryBloomFilter_Put \<lparr>mbf_k = 1, mbf_bs = [9, 0, 0, 0], \<dots> = z\<rparr> [0x62] =
     Inr \<lparr>mbf_k = 1, mbf_bs = [11, 0, 0, 0], \<dots> = z\<rparr>"
  by (simp add: mem_eval)

lemma rPut_a_200_low:
  "RedisBloomFilter_Put (remote_filter 200 1) [0x61]
     [redisKey (remote_filter 200 1) \<mapsto>
       VList ((replicate 200 [])[0 := ''1''])] =
     Inr [redisKey (remote_filter 200 1) \<mapsto>
       VList ((replicate 200 [])[0 := ''1'', 119 := ''1''])]"
  by (simp add: remote_eval)

lemma rPut_b_200_low:
  "RedisBloomFilter_Put (remote_filter 200 1) [0x62]
     [redisKey (remote_filter 200 1) \<mapsto>
       VList ((replicate 200 [])[0 := ''1'', 119 := ''1''])] =
     Inr [redisKey (remote_filter 200 1) \<mapsto>
       VList ((replicate 200 [])[0 := ''1'', 119 := ''1'', 157 := ''1''])]"
  by (simp add: remote_eval)

section \<open>No false negatives\<close>

text \<open>
  C3.  On every backend, once \<^verbatim>\<open>Put\<close> of a key \<open>x\<close> has returned, and after any further
  sequence of \<^verbatim>\<open>Put\<close> calls that return (no \<^verbatim>\<open>Close\<close> in between), \<^verbatim>\<open>Has\<close> of \<open>x\<close>
  answers true.  A bit (memory and file backends) or list element (remote backend) that
  was set before these calls is still set after them; \<^verbatim>\<open>Has\<close> changes nothing: on the
  memory and file backends it returns only the answer, on the remote backend it hands the
  server state back as it found it.  The file backend runs the methods of the memory
  backend on its embedded filter.
\<close>

theorem no_false_negatives:
  "(MemoryBloomFilter_Put (m :: MemoryBloomFilter) x = Inr ma \<longrightarrow> put_all ma ys = Inr mb \<longrightarrow>
      MemoryBloomFilter_Has mb x = Inr True \<and> (bit_at (mbf_bs m) j \<longrightarrow> bit_at (mbf_bs mb) j)) \<and>
   (MemoryBloomFilter_Put (f :: FileBloomFilter) x = Inr fa \<longrightarrow> put_all fa ys = Inr fb \<longrightarrow>
      MemoryBloomFilter_Has fb x = Inr True \<and> (bit_at (mbf_bs f) j \<longrightarrow> bit_at (mbf_bs fb) j)) \<and>
   (RedisBloomFilter_Put r x st = Inr sta \<longrightarrow> rput_all r ys sta = Inr stb \<longrightarrow>
      RedisBloomFilter_Has r x stb = Inr (True, stb) \<and>
      (elem_set st (redisKey r) j \<longrightarrow> elem_set stb (redisKey r) j)) \<and>
   (RedisBloomFilter_Has r y sq = Inr (b, sq') \<longrightarrow> sq' = sq)"
proof (intro conjI impI)
  assume p: "MemoryBloomFilter_Put m x = Inr ma" and a: "put_all ma ys = Inr mb"
  show "MemoryBloomFilter_Has mb x = Inr True" using p a by (rule memory_no_false_negative)
  assume "bit_at (mbf_bs m) j"
  with Put_frame(3) [OF p] put_all_frame [OF a] show "bit_at (mbf_bs mb) j" by blast
next
  assume p: "MemoryBloomFilter_Put f x = Inr fa" and a: "put_all fa ys = Inr fb"
  show "MemoryBloomFilter_Has fb x = Inr True" using p a by (rule memory_no_false_negative)
  assume "bit_at (mbf_bs f) j"
  with Put_frame(3) [OF p] put_all_frame [OF a] show "bit_at (mbf_bs fb) j" by blast
next
  assume p: "RedisBloomFilter_Put r x st = Inr sta" and a: "rput_all r ys sta = Inr stb"
  show "RedisBloomFilter_Has r x stb = Inr (True, stb)" using p a by (rule remote_no_false_negative)
  assume "elem_set st (redisKey r) j"
  from rput_all_keeps [OF a rPut_keeps [OF p this]] show "elem_set stb (redisKey r) j" .
next
  assume "RedisBloomFilter_Has r y sq = Inr (b, sq')"
  then show "sq' = sq" by (rule remote_Has_frame)
qed

theorem no_false_negatives_witness:
  "MemoryBloomFilter_Put \<lparr>mbf_k = 1, mbf_bs = [1, 0, 0, 0]\<rparr> [0x61] =
     Inr \<lparr>mbf_k = 1, mbf_bs = [9, 0, 0, 0]\<rparr> \<and>
   put_all \<lparr>mbf_k = 1, mbf_bs = [9, 0, 0, 0]\<rparr> [[0x62]] =
     Inr \<lparr>mbf_k = 1, mbf_bs = [11, 0, 0, 0]\<rparr> \<and>
   MemoryBloomFilter_Has \<lparr>mbf_k = 1, mbf_bs = [11, 0, 0, 0]\<rparr> [0x61] = Inr True \<and>
   MemoryBloomFilter_Put \<lparr>mbf_k = 1, mbf_bs = [1, 0, 0, 0], fbf_target = ''bloom.tmp''\<rparr> [0x61] =
     Inr \<lparr>mbf_k = 1, mbf_bs = [9, 0, 0, 0], fbf_target = ''bloom.tmp''\<rparr> \<and>
   put_all \<lparr>mbf_k = 1, mbf_bs = [9, 0, 0, 0], fbf_target = ''bloom.tmp''\<rparr> [[0x62]] =
     Inr \<lparr>mbf_k = 1, mbf_bs = [11, 0, 0, 0], fbf_target = ''bloom.tmp''\<rparr> \<and>
   MemoryBloomFilter_Has \<lparr>mbf_k = 1, mbf_bs = [11, 0, 0, 0], fbf_target = ''bloom.tmp''\<rparr> [0x61] = Inr True \<and>
   bit_at [1, 0, 0, 0] 0 \<and>
   bit_at [11, 0, 0, 0] 0 \<and>
   RedisBloomFilter_Put (remote_filter 200 1) [0x61]
     [redisKey (remote_filter 200 1) \<mapsto>
       VList ((replicate 200 [])[0 := ''1''])] =
     Inr [redisKey (remote_filter 200 1) \<mapsto>
       VList ((replicate 200 [])[0 := ''1'', 119 := ''1''])] \<and>
   rput_all (remote_filter 200 1) [[0x62]]
     [redisKey (remote_filter 200 1) \<mapsto>
       VList ((replicate 200 [])[0 := ''1'', 119 := ''1''])] =
     Inr [redisKey (remote_filter 200 1) \<mapsto>
       VList ((replicate 200 [])[0 := ''1'', 119 := ''1'', 157 := ''1''])] \<and>
   RedisBloomFilter_Has (remote_filter 200 1) [0x61]
     [redisKey (remote_filter 200 1) \<mapsto>
       VList ((replicate 200 [])[0 := ''1'', 119 := ''1'', 157 := ''1''])] =
     Inr (True, [redisKey (remote_filter 200 1) \<mapsto>
       VList ((replicate 200 [])[0 := ''1'', 119 := ''1'', 157 := ''1''])]) \<and>
   elem_set [redisKey (remote_filter 200 1) \<mapsto>
       VList ((replicate 200 [])[0 := ''1''])] (redisKey (remote_filter 200 1)) 0 \<and>
   elem_set [redisKey (remote_filter 200 1) \<mapsto>
       VList ((replicate 200 [])[0 := ''1'', 119 := ''1'', 157 := ''1''])] (redisKey (remote_filter 200 1)) 0"
proof -
  have m1: "MemoryBloomFilter_Put \<lparr>mbf_k = 1, mbf_bs = [1, 0, 0, 0]\<rparr> [0x61] =
     Inr \<lparr>mbf_k = 1, mbf_bs = [9, 0, 0, 0]\<rparr>"
    by (simp only: Put_a_200_low)
  have m2: "put_all \<lparr>mbf_k = 1, mbf_bs = [9, 0, 0, 0]\<rparr> [[0x62]] =
     Inr \<lparr>mbf_k = 1, mbf_bs = [11, 0, 0, 0]\<rparr>"
    by (simp only: put_all.simps Put_b_200_low sum.case)
  have f1: "MemoryBloomFilter_Put \<lparr>mbf_k = 1, mbf_bs = [1, 0, 0, 0], fbf_target = ''bloom.tmp''\<rparr> [0x61] =
     Inr \<lparr>mbf_k = 1, mbf_bs = [9, 0, 0, 0], fbf_target = ''bloom.tmp''\<rparr>"
    by (simp only: Put_a_200_low)
  have f2: "put_all \<lparr>mbf_k = 1, mbf_bs = [9, 0, 0, 0], fbf_target = ''bloom.tmp''\<rparr> [[0x62]] =
     Inr \<lparr>mbf_k = 1, mbf_bs = [11, 0, 0, 0], fbf_target = ''bloom.tmp''\<rparr>"
    by (simp only: put_all.simps Put_b_200_low sum.case)
  have r2: "rput_all (remote_filter 200 1) [[0x62]]
     [redisKey (remote_filter 200 1) \<mapsto>
       VList ((replicate 200 [])[0 := ''1'', 119 := ''1''])] =
     Inr [redisKey (remote_filter 200 1) \<mapsto>
       VList ((replicate 200 [])[0 := ''1'', 119 := ''1'', 157 := ''1''])]"
    by (simp only: rput_all.simps rPut_b_200_low sum.case)
  have b0: "bit_at [1, 0, 0, 0] 0"
    by (simp add: bit_at_def)
  have e0: "elem_set [redisKey (remote_filter 200 1) \<mapsto>
       VList ((replicate 200 [])[0 := ''1''])] (redisKey (remote_filter 200 1)) 0"
    by (simp add: elem_set_def)
  from no_false_negatives
         [where m = "\<lparr>mbf_k = 1, mbf_bs = [1, 0, 0, 0]\<rparr>" and x = "[0x61]" and ys = "[[0x62]]" and j = 0
            and ma = "\<lparr>mbf_k = 1, mbf_bs = [9, 0, 0, 0]\<rparr>"
            and mb = "\<lparr>mbf_k = 1, mbf_bs = [11, 0, 0, 0]\<rparr>"
            and f = "\<lparr>mbf_k = 1, mbf_bs = [1, 0, 0, 0], fbf_target = ''bloom.tmp''\<rparr>"
            and fa = "\<lparr>mbf_k = 1, mbf_bs = [9, 0, 0, 0], fbf_target = ''bloom.tmp''\<rparr>"
            and fb = "\<lparr>mbf_k = 1, mbf_bs = [11, 0, 0, 0], fbf_target = ''bloom.tmp''\<rparr>"
            and r = "remote_filter 200 1"
            and st = "[redisKey (remote_filter 200 1) \<mapsto>
       VList ((replicate 200 [])[0 := ''1''])]"
            and sta = "[redisKey (remote_filter 200 1) \<mapsto>
       VList ((replicate 200 [])[0 := ''1'', 119 := ''1''])]"
            and stb = "[redisKey (remote_filter 200 1) \<mapsto>
       VList ((replicate 200 [])[0 := ''1'', 119 := ''1'', 157 := ''1''])]"
            and y = "[0x61]" and b = True
            and sq = "[redisKey (remote_filter 200 1) \<mapsto>
       VList ((replicate 200 [])[0 := ''1'', 119 := ''1'', 157 := ''1''])]"
            and sq' = "[redisKey (remote_filter 200 1) \<mapsto>
       VList ((replicate 200 [])[0 := ''1'', 119 := ''1'', 157 := ''1''])]"]
    m1 m2 f1 f2 rPut_a_200_low r2 b0 e0
  show ?thesis by simp
qed

section \<open>Idempotence of Put\<close>

text \<open>
  C7.  On every backend, a second \<^verbatim>\<open>Put\<close> of the same key right after the first leaves
  the state (the filter with its bit slice; the server state) exactly as the first left it.
\<close>

theorem put_idempotent:
  "(MemoryBloomFilter_Put (m :: MemoryBloomFilter) x = Inr m1 \<longrightarrow> MemoryBloomFilter_Put m1 x = Inr m1) \<and>
   (MemoryBloomFilter_Put (f :: FileBloomFilter) x = Inr f1 \<longrightarrow> MemoryBloomFilter_Put f1 x = Inr f1) \<and>
   (RedisBloomFilter_Put r x st = Inr st1 \<longrightarrow> RedisBloomFilter_Put r x st1 = Inr st1)"
  by (intro conjI impI) (erule memory_put_twice remote_put_twice)+

theorem put_idempotent_witness:
  "NewMemoryBloomFilter ample 200 1 = Inr \<lparr>mbf_k = 1, mbf_bs = [0, 0, 0, 0]\<rparr> \<and>
   MemoryBloomFilter_Put \<lparr>mbf_k = 1, mbf_bs = [0, 0, 0, 0]\<rparr> [0x61] = Inr \<lparr>mbf_k = 1, mbf_bs = [8, 0, 0, 0]\<rparr> \<and>
   MemoryBloomFilter_Put \<lparr>mbf_k = 1, mbf_bs = [8, 0, 0, 0]\<rparr> [0x61] = Inr \<lparr>mbf_k = 1, mbf_bs = [8, 0, 0, 0]\<rparr> \<and>
   MemoryBloomFilter_Put \<lparr>mbf_k = 1, mbf_bs = [0, 0, 0, 0], fbf_target = ''bloom.tmp''\<rparr> [0x61] =
     Inr \<lparr>mbf_k = 1, mbf_bs = [8, 0, 0, 0], fbf_target = ''bloom.tmp''\<rparr> \<and>
   MemoryBloomFilter_Put \<lparr>mbf_k = 1, mbf_bs = [8, 0, 0, 0], fbf_target = ''bloom.tmp''\<rparr> [0x61] =
     Inr \<lparr>mbf_k = 1, mbf_bs = [8, 0, 0, 0], fbf_target = ''bloom.tmp''\<rparr> \<and>
   RedisBloomFilter_Put (remote_filter 200 1) [0x61]
     [redisKey (remote_filter 200 1) \<mapsto> VList (replicate 200 [])] =
     Inr [redisKey (remote_filter 200 1) \<mapsto>
            VList ((replicate 200 [])[119 := ''1''])] \<and>
   RedisBloomFilter_Put (remote_filter 200 1) [0x61]
     [redisKey (remote_filter 200 1) \<mapsto>
            VList ((replicate 200 [])[119 := ''1''])] =
     Inr [redisKey (remote_filter 200 1) \<mapsto>
            VList ((replicate 200 [])[119 := ''1''])]"
proof -
  have m1: "MemoryBloomFilter_Put \<lparr>mbf_k = 1, mbf_bs = [0, 0, 0, 0]\<rparr> [0x61] = Inr \<lparr>mbf_k = 1, mbf_bs = [8, 0, 0, 0]\<rparr>"
    by (simp only: Put_a_200)
  have f1: "MemoryBloomFilter_Put \<lparr>mbf_k = 1, mbf_bs = [0, 0, 0, 0], fbf_target = ''bloom.tmp''\<rparr> [0x61] =
     Inr \<lparr>mbf_k = 1, mbf_bs = [8, 0, 0, 0], fbf_target = ''bloom.tmp''\<rparr>"
    by (simp only: Put_a_200)
  from put_idempotent [of "\<lparr>mbf_k = 1, mbf_bs = [0, 0, 0, 0]\<rparr>" "[0x61]" _
        "\<lparr>mbf_k = 1, mbf_bs = [0, 0, 0, 0], fbf_target = ''bloom.tmp''\<rparr>" _
        "remote_filter 200 1"
        "[redisKey (remote_filter 200 1) \<mapsto> VList (replicate 200 [])]"]
    m1 f1 rPut_a_200 NewMemoryBloomFilter_200 [of 1]
  show ?thesis by simp
qed

section \<open>Calls after Close\<close>

text \<open>
  C9.  With a hash count of at least 1, a memory-backed filter after \<^verbatim>\<open>Close\<close>, and a
  file-backed filter after a \<^verbatim>\<open>Close\<close> that returned, fault on every \<^verbatim>\<open>Put\<close> and every
  \<^verbatim>\<open>Has\<close> with the division-by-zero panic: the slice is nil, its length is 0, and the
  index is a remainder by that length.
\<close>

theorem use_after_close_faults:
  "(0 < mbf_k m \<longrightarrow>
      MemoryBloomFilter_Put (MemoryBloomFilter_Close m) x = Inl DivideByZero \<and>
      MemoryBloomFilter_Has (MemoryBloomFilter_Close m) x = Inl DivideByZero) \<and>
   (0 < mbf_k f \<longrightarrow> FileBloomFilter_Close cd f fs = Inr (f', fs') \<longrightarrow>
      MemoryBloomFilter_Put f' x = Inl DivideByZero \<and>
      MemoryBloomFilter_Has f' x = Inl DivideByZero)"
proof (intro conjI impI)
  assume k: "0 < mbf_k m"
  have b: "mbf_bs (MemoryBloomFilter_Close m) = []" and k': "0 < mbf_k (MemoryBloomFilter_Close m)"
    using k by (simp_all add: MemoryBloomFilter_Close_def)
  from closed_faults [OF b k']
  show "MemoryBloomFilter_Put (MemoryBloomFilter_Close m) x = Inl DivideByZero"
    and "MemoryBloomFilter_Has (MemoryBloomFilter_Close m) x = Inl DivideByZero" by simp_all
next
  assume k: "0 < mbf_k f" and c: "FileBloomFilter_Close cd f fs = Inr (f', fs')"
  from c have "f' = f\<lparr>mbf_bs := []\<rparr>"
    by (auto simp add: FileBloomFilter_Close_def split: sum.splits)
  with k have b: "mbf_bs f' = []" and k': "0 < mbf_k f'" by simp_all
  from closed_faults [OF b k']
  show "MemoryBloomFilter_Put f' x = Inl DivideByZero"
    and "MemoryBloomFilter_Has f' x = Inl DivideByZero" by simp_all
qed

theorem use_after_close_faults_witness:
  "NewMemoryBloomFilter ample 64 1 = Inr \<lparr>mbf_k = 1, mbf_bs = [0, 0]\<rparr> \<and>
   0 < mbf_k \<lparr>mbf_k = 1, mbf_bs = [0, 0]\<rparr> \<and>
   MemoryBloomFilter_Put (MemoryBloomFilter_Close \<lparr>mbf_k = 1, mbf_bs = [0, 0]\<rparr>) [0x61] = Inl DivideByZero \<and>
   MemoryBloomFilter_Has (MemoryBloomFilter_Close \<lparr>mbf_k = 1, mbf_bs = [0, 0]\<rparr>) [0x61] = Inl DivideByZero \<and>
   0 < mbf_k \<lparr>mbf_k = 1, mbf_bs = [2, 0], fbf_target = ''bloom.tmp''\<rparr> \<and>
   FileBloomFilter_Close plain_codec
       \<lparr>mbf_k = 1, mbf_bs = [2, 0], fbf_target = ''bloom.tmp''\<rparr> Map.empty =
     Inr (\<lparr>mbf_k = 1, mbf_bs = [], fbf_target = ''bloom.tmp''\<rparr>, [''bloom.tmp'' \<mapsto> Regular [2, 0]]) \<and>
   MemoryBloomFilter_Put \<lparr>mbf_k = 1, mbf_bs = [], fbf_target = ''bloom.tmp''\<rparr> [0x61] = Inl DivideByZero \<and>
   MemoryBloomFilter_Has \<lparr>mbf_k = 1, mbf_bs = [], fbf_target = ''bloom.tmp''\<rparr> [0x61] = Inl DivideByZero"
proof -
  have k: "0 < mbf_k \<lparr>mbf_k = 1, mbf_bs = [0, 0]\<rparr>"
    by simp
  have k': "0 < mbf_k \<lparr>mbf_k = 1, mbf_bs = [2, 0], fbf_target = ''bloom.tmp''\<rparr>"
    by simp
  have c: "FileBloomFilter_Close plain_codec
       \<lparr>mbf_k = 1, mbf_bs = [2, 0], fbf_target = ''bloom.tmp''\<rparr> Map.empty =
     Inr (\<lparr>mbf_k = 1, mbf_bs = [], fbf_target = ''bloom.tmp''\<rparr>, [''bloom.tmp'' \<mapsto> Regular [2, 0]])"
    by (simp add: FileBloomFilter_Close_def store_def)
  from use_after_close_faults [of "\<lparr>mbf_k = 1, mbf_bs = [0, 0]\<rparr>" "[0x61]"
        "\<lparr>mbf_k = 1, mbf_bs = [2, 0], fbf_target = ''bloom.tmp''\<rparr>"
        "plain_codec" Map.empty
        "\<lparr>mbf_k = 1, mbf_bs = [], fbf_target = ''bloom.tmp''\<rparr>" "[''bloom.tmp'' \<mapsto> Regular [2, 0]]"]
    k k' c NewMemoryBloomFilter_64 [of 1]
  show ?thesis by simp
qed

section \<open>Close of the remote backend\<close>

text \<open>
  C8.  \<^verbatim>\<open>Close\<close> of a remote-backed filter leaves the server state as it was, so every
  command is answered after it as it would have been before; of the filter only the
  \<^verbatim>\<open>cli\<close> field changes, to nil.
\<close>

theorem remote_close_frame:
  "snd (RedisBloomFilter_Close r st) = st \<and>
   fst (RedisBloomFilter_Close r st) = r\<lparr>rbf_cli := None\<rparr> \<and>
   Do cmd (snd (RedisBloomFilter_Close r st)) = Do cmd st"
  by (simp add: RedisBloomFilter_Close_def)

section \<open>The round trip through the file\<close>

text \<open>
  C4.  Let the decoder give back the slice that the encoder was given.  If \<^verbatim>\<open>Close\<close> of
  a file-backed filter returns, then \<^verbatim>\<open>NewFileBloomFilter\<close> on the same path with the same
  hash count, and with a capacity whose slice the runtime allocates (as it did when the
  original filter was built), returns a filter with the same bit slice, and \<^verbatim>\<open>Has\<close>
  answers on it, for every key, what it answered on the original filter before the
  \<^verbatim>\<open>Close\<close>.  With a capacity whose slice is refused, the constructor faults as the
  allocation does.
\<close>

theorem file_round_trip:
  assumes rt: "\<And>bs c. gob_gzip_encode cd bs = Some c \<Longrightarrow> gob_gzip_decode cd c = Decoded bs"
    and cl: "FileBloomFilter_Close cd f fs = Inr (f', fs')"
  shows "(NewBitSets heap n = Inr z \<longrightarrow>
            (\<exists>g. NewFileBloomFilter heap cd fs' (fbf_target f) n (mbf_k f) = Inr g \<and>
                 mbf_bs g = mbf_bs f \<and>
                 (\<forall>key. MemoryBloomFilter_Has g key = MemoryBloomFilter_Has f key))) \<and>
         (NewBitSets heap n = Inl e \<longrightarrow>
            NewFileBloomFilter heap cd fs' (fbf_target f) n (mbf_k f) = Inl e)"
proof -
  from cl have s: "store cd f fs = Inr fs'"
    by (cases "store cd f fs") (simp_all add: FileBloomFilter_Close_def)
  have "\<exists>c. gob_gzip_encode cd (mbf_bs f) = Some c \<and> fs' = fs(fbf_target f \<mapsto> Regular c)"
  proof (cases "gob_gzip_encode cd (mbf_bs f)")
    case None
    with s show ?thesis
      by (simp add: store_def split: option.splits node.splits)
  next
    case (Some c)
    with s have "fs' = fs(fbf_target f \<mapsto> Regular c)"
      by (simp add: store_def split: option.splits node.splits)
    with Some show ?thesis by simp
  qed
  then obtain c where
    e: "gob_gzip_encode cd (mbf_bs f) = Some c" and
    fs': "fs' = fs(fbf_target f \<mapsto> Regular c)" by blast
  let ?g = "\<lparr>mbf_k = mbf_k f, mbf_bs = mbf_bs f, fbf_target = fbf_target f\<rparr>"
  have ok: "NewFileBloomFilter heap cd fs' (fbf_target f) n (mbf_k f) = Inr ?g"
    if "NewBitSets heap n = Inr z"
    using that rt [OF e] fs'
    by (simp add: NewFileBloomFilter_def reStore_def NewMemoryBloomFilter_def)
  have same: "\<forall>key. MemoryBloomFilter_Has ?g key = MemoryBloomFilter_Has f key"
    by (simp add: MemoryBloomFilter_Has_def)
  have bad: "NewFileBloomFilter heap cd fs' (fbf_target f) n (mbf_k f) = Inl e"
    if "NewBitSets heap n = Inl e"
    using that by (simp add: NewFileBloomFilter_def NewMemoryBloomFilter_def)
  from ok same bad show ?thesis by simp
qed

theorem file_round_trip_witness:
  "FileBloomFilter_Close plain_codec
       \<lparr>mbf_k = 1, mbf_bs = [10, 0, 0, 0], fbf_target = ''bloom.tmp''\<rparr> Map.empty =
     Inr (\<lparr>mbf_k = 1, mbf_bs = [], fbf_target = ''bloom.tmp''\<rparr>,
          [''bloom.tmp'' \<mapsto> Regular [10, 0, 0, 0]]) \<and>
   NewBitSets ample 200 = Inr [0, 0, 0, 0] \<and>
   (\<exists>g. NewFileBloomFilter ample plain_codec
            [''bloom.tmp'' \<mapsto> Regular [10, 0, 0, 0]] ''bloom.tmp'' 200 1 = Inr g \<and>
        mbf_bs g = [10, 0, 0, 0] \<and>
        MemoryBloomFilter_Has g [0x61] =
          MemoryBloomFilter_Has \<lparr>mbf_k = 1, mbf_bs = [10, 0, 0, 0], fbf_target = ''bloom.tmp''\<rparr> [0x61]) \<and>
   NewBitSets (\<lambda>bytes. False) 200 = Inl OutOfMemory \<and>
   NewFileBloomFilter (\<lambda>bytes. False) plain_codec
            [''bloom.tmp'' \<mapsto> Regular [10, 0, 0, 0]] ''bloom.tmp'' 200 1 = Inl OutOfMemory"
proof -
  let ?cd = "plain_codec"
  let ?f = "\<lparr>mbf_k = 1, mbf_bs = [10, 0, 0, 0], fbf_target = ''bloom.tmp''\<rparr>"
  have rt: "\<And>bs c. gob_gzip_encode ?cd bs = Some c \<Longrightarrow> gob_gzip_decode ?cd c = Decoded bs"
    by simp
  have c: "FileBloomFilter_Close ?cd ?f Map.empty =
     Inr (\<lparr>mbf_k = 1, mbf_bs = [], fbf_target = ''bloom.tmp''\<rparr>,
          [''bloom.tmp'' \<mapsto> Regular [10, 0, 0, 0]])"
    by (simp add: FileBloomFilter_Close_def store_def)
  have o: "NewBitSets (\<lambda>bytes. False) 200 = Inl OutOfMemory"
    by (simp add: NewBitSets_def alloc_fault_def maxAlloc_def)
  from file_round_trip [of ?cd ?f Map.empty _ _ ample 200 "[0, 0, 0, 0]", OF rt c]
       file_round_trip [of ?cd ?f Map.empty _ _ "\<lambda>bytes. False" 200 _ OutOfMemory, OF rt c]
       c o NewBitSets_200
  show ?thesis by auto
qed

section \<open>Construction of the remote backend\<close>

lemma llen_cases:
  "llen st key = (case st key of Some (VList xs) \<Rightarrow> length xs | _ \<Rightarrow> 0)"
  by (simp add: llen_def split: option.splits redis_value.splits)

lemma Do_LLEN:
  "Do (LLEN key) st = (fst (Do (LLEN key) st), st)"
  by (simp split: option.splits redis_value.splits)

lemma Do_DEL:
  "snd (Do (DEL key) st) = st(key := None)"
  by (auto simp add: fun_upd_idem split: option.splits)

lemma Do_LPUSH_fresh:
  "snd (Do (LPUSH key vals) (st(key := None))) =
     (if vals = [] then st(key := None) else st(key \<mapsto> VList (rev vals)))"
  by simp

lemma NewRedis_unfold:
  "NewRedisBloomFilter heap (Some c) n k st =
     (if llen st (redisKey (live_filter c n k)) \<noteq> n then
        (case alloc_fault heap (n * 16) of
           Some e \<Rightarrow> Inl e
         | None \<Rightarrow>
            (case alloc_fault heap (if n = 0 then 0 else (n + 1) * 16) of
               Some e \<Rightarrow> Inl e
             | None \<Rightarrow>
                 Inr (live_filter c n k,
                      snd (Do (LPUSH (redisKey (live_filter c n k)) (replicate n []))
                             (snd (Do (DEL (redisKey (live_filter c n k))) st))))))
      else Inr (live_filter c n k, st))"
  unfolding NewRedisBloomFilter_def llen_def Let_def
  by (subst Do_LLEN) (simp add: case_prod_beta split: option.splits)

lemma NewRedis_same_length:
  assumes "llen st (redisKey (live_filter c n k)) = n"
  shows "NewRedisBloomFilter heap (Some c) n k st = Inr (live_filter c n k, st)"
  using assms by (simp add: NewRedis_unfold)

lemma NewRedis_first_fault:
  assumes "llen st (redisKey (live_filter c n k)) \<noteq> n" and "alloc_fault heap (n * 16) = Some e"
  shows "NewRedisBloomFilter heap (Some c) n k st = Inl e"
  using assms by (simp add: NewRedis_unfold)

lemma NewRedis_second_fault:
  assumes "llen st (redisKey (live_filter c n k)) \<noteq> n" and "granted heap (n * 16)"
    and "0 < n" and "alloc_fault heap ((n + 1) * 16) = Some e"
  shows "NewRedisBloomFilter heap (Some c) n k st = Inl e"
  using assms by (simp add: NewRedis_unfold granted_def)

lemma NewRedis_reset:
  assumes "llen st (redisKey (live_filter c n k)) \<noteq> n" and "granted heap (n * 16)"
    and "0 < n \<longrightarrow> granted heap ((n + 1) * 16)"
  shows "NewRedisBloomFilter heap (Some c) n k st =
           Inr (live_filter c n k,
                st(redisKey (live_filter c n k) :=
                     (if n = 0 then None else Some (VList (replicate n [])))))"
proof -
  have z: "alloc_fault heap 0 = None" by (simp add: alloc_fault_def)
  from assms z show ?thesis
    by (cases "n = 0")
       (simp_all add: NewRedis_unfold granted_def Do_DEL Do_LPUSH_fresh del: Do.simps)
qed

text \<open>
  C6.  \<^verbatim>\<open>NewRedisBloomFilter\<close> with a live client reads the length under the key of
  \<open>(n, k)\<close>.  If it differs from \<open>n\<close> and the runtime grants the \<open>n\<close> list elements and
  (for \<open>n > 0\<close>) the \<open>n + 1\<close> command arguments, the constructor returns, and the state
  afterwards is the old one with that key deleted and, for \<open>n > 0\<close>, set to a list of \<open>n\<close>
  empty strings: its length reads \<open>n\<close>, and every index below \<open>n\<close> reads the empty
  string, which is not "1".  If one of the two allocations is refused, the constructor
  faults with that refusal, before any command changes the server.  If the length equals
  \<open>n\<close>, the constructor returns and the state is unchanged.
\<close>

theorem remote_reinit:
  "(llen st (redisKey (live_filter c n k)) \<noteq> n \<longrightarrow> granted heap (n * 16) \<longrightarrow>
      (0 < n \<longrightarrow> granted heap ((n + 1) * 16)) \<longrightarrow>
      (\<exists>st'. NewRedisBloomFilter heap (Some c) n k st = Inr (live_filter c n k, st') \<and>
         st' = st(redisKey (live_filter c n k) :=
                    (if n = 0 then None else Some (VList (replicate n [])))) \<and>
         llen st' (redisKey (live_filter c n k)) = n \<and>
         (\<forall>index<n. Do (LINDEX (redisKey (live_filter c n k)) index) st' = (RBulk [], st') \<and>
                     \<not> elem_set st' (redisKey (live_filter c n k)) index))) \<and>
   (llen st (redisKey (live_filter c n k)) \<noteq> n \<longrightarrow> alloc_fault heap (n * 16) = Some e \<longrightarrow>
      NewRedisBloomFilter heap (Some c) n k st = Inl e) \<and>
   (llen st (redisKey (live_filter c n k)) \<noteq> n \<longrightarrow> granted heap (n * 16) \<longrightarrow> 0 < n \<longrightarrow>
      alloc_fault heap ((n + 1) * 16) = Some e \<longrightarrow>
      NewRedisBloomFilter heap (Some c) n k st = Inl e) \<and>
   (llen st (redisKey (live_filter c n k)) = n \<longrightarrow>
      NewRedisBloomFilter heap (Some c) n k st = Inr (live_filter c n k, st))"
proof (intro conjI impI)
  assume a: "llen st (redisKey (live_filter c n k)) \<noteq> n" and g: "granted heap (n * 16)"
    and h: "0 < n \<longrightarrow> granted heap ((n + 1) * 16)"
  let ?st' = "st(redisKey (live_filter c n k) :=
                    (if n = 0 then None else Some (VList (replicate n []))))"
  have "NewRedisBloomFilter heap (Some c) n k st = Inr (live_filter c n k, ?st')"
    using a g h by (rule NewRedis_reset)
  moreover have "llen ?st' (redisKey (live_filter c n k)) = n"
    by (simp add: llen_cases)
  moreover have "\<forall>index<n. Do (LINDEX (redisKey (live_filter c n k)) index) ?st' = (RBulk [], ?st') \<and>
                     \<not> elem_set ?st' (redisKey (live_filter c n k)) index"
    by (simp add: elem_set_def)
  ultimately show "\<exists>st'. NewRedisBloomFilter heap (Some c) n k st = Inr (live_filter c n k, st') \<and>
         st' = ?st' \<and>
         llen st' (redisKey (live_filter c n k)) = n \<and>
         (\<forall>index<n. Do (LINDEX (redisKey (live_filter c n k)) index) st' = (RBulk [], st') \<and>
                     \<not> elem_set st' (redisKey (live_filter c n k)) index)"
    by blast
next
  assume "llen st (redisKey (live_filter c n k)) \<noteq> n" and "alloc_fault heap (n * 16) = Some e"
  then show "NewRedisBloomFilter heap (Some c) n k st = Inl e"
    by (rule NewRedis_first_fault)
next
  assume "llen st (redisKey (live_filter c n k)) \<noteq> n" and "granted heap (n * 16)"
    and "0 < n" and "alloc_fault heap ((n + 1) * 16) = Some e"
  then show "NewRedisBloomFilter heap (Some c) n k st = Inl e"
    by (rule NewRedis_second_fault)
next
  assume "llen st (redisKey (live_filter c n k)) = n"
  then show "NewRedisBloomFilter heap (Some c) n k st = Inr (live_filter c n k, st)"
    by (rule NewRedis_same_length)
qed

theorem remote_reinit_witness:
  "llen [redisKey (remote_filter 3 1) \<mapsto> VList [''1'', ''1'']]
        (redisKey (remote_filter 3 1)) \<noteq> 3 \<and>
   granted ample (3 * 16) \<and>
   granted ample ((3 + 1) * 16) \<and>
   NewRedisBloomFilter ample (Some Conn) 3 1
        [redisKey (remote_filter 3 1) \<mapsto> VList [''1'', ''1'']] =
     Inr (remote_filter 3 1,
          [redisKey (remote_filter 3 1) \<mapsto> VList [[], [], []]]) \<and>
   Do (LINDEX (redisKey (remote_filter 3 1)) 2)
        [redisKey (remote_filter 3 1) \<mapsto> VList [[], [], []]] =
     (RBulk [], [redisKey (remote_filter 3 1) \<mapsto> VList [[], [], []]]) \<and>
   llen Map.empty (redisKey (remote_filter 18446744073709551615 1)) \<noteq> 18446744073709551615 \<and>
   alloc_fault ample (18446744073709551615 * 16) = Some SliceLenOutOfRange \<and>
   NewRedisBloomFilter ample (Some Conn) 18446744073709551615 1 Map.empty =
     Inl SliceLenOutOfRange \<and>
   granted (\<lambda>bytes. bytes \<le> 48) (3 * 16) \<and>
   alloc_fault (\<lambda>bytes. bytes \<le> 48) ((3 + 1) * 16) = Some OutOfMemory \<and>
   NewRedisBloomFilter (\<lambda>bytes. bytes \<le> 48) (Some Conn) 3 1
        [redisKey (remote_filter 3 1) \<mapsto> VList [''1'', ''1'']] = Inl OutOfMemory \<and>
   llen [redisKey (remote_filter 3 1) \<mapsto> VList [''1'', [], ''1'']]
        (redisKey (remote_filter 3 1)) = 3 \<and>
   NewRedisBloomFilter ample (Some Conn) 3 1
        [redisKey (remote_filter 3 1) \<mapsto> VList [''1'', [], ''1'']] =
     Inr (remote_filter 3 1,
          [redisKey (remote_filter 3 1) \<mapsto> VList [''1'', [], ''1'']])"
proof -
  let ?key = "redisKey (remote_filter 3 1)"
  let ?big = "18446744073709551615 :: nat"
  have a: "llen [?key \<mapsto> VList [''1'', ''1'']] ?key \<noteq> 3"
    by (simp add: llen_def)
  have b: "llen [?key \<mapsto> VList [''1'', [], ''1'']] ?key = 3"
    by (simp add: llen_def)
  have g1: "granted ample (3 * 16)" and g2: "granted ample ((3 + 1) * 16)"
    by (simp_all add: granted_def alloc_fault_def maxAlloc_def)
  have g2': "0 < (3::nat) \<longrightarrow> granted ample ((3 + 1) * 16)"
    using g2 by simp
  have r: "replicate 3 [] = [[], [], []::string]"
    by (simp add: numeral_3_eq_3)
  have i: "(2::nat) < 3" and p: "(0::nat) < 3" by simp_all
  have c: "llen Map.empty (redisKey (remote_filter ?big 1)) \<noteq> ?big"
    by (simp add: llen_def)
  have d: "alloc_fault ample (?big * 16) = Some SliceLenOutOfRange"
    by (simp add: alloc_fault_def maxAlloc_def)
  have h1: "granted (\<lambda>bytes. bytes \<le> 48) (3 * 16)"
    by (simp add: granted_def alloc_fault_def maxAlloc_def)
  have h2: "alloc_fault (\<lambda>bytes. bytes \<le> 48) ((3 + 1) * 16) = Some OutOfMemory"
    by (simp add: alloc_fault_def maxAlloc_def)
  from remote_reinit [of "[?key \<mapsto> VList [''1'', ''1'']]" Conn 3 1 ample]
       a g1 g2' r i
  have w1: "NewRedisBloomFilter ample (Some Conn) 3 1 [?key \<mapsto> VList [''1'', ''1'']] =
              Inr (remote_filter 3 1, [?key \<mapsto> VList [[], [], []]]) \<and>
            Do (LINDEX ?key 2) [?key \<mapsto> VList [[], [], []]] =
              (RBulk [], [?key \<mapsto> VList [[], [], []]])"
    by auto
  from remote_reinit [of Map.empty Conn ?big 1 ample SliceLenOutOfRange] c d
  have w2: "NewRedisBloomFilter ample (Some Conn) ?big 1 Map.empty = Inl SliceLenOutOfRange"
    by blast
  from remote_reinit [of "[?key \<mapsto> VList [''1'', ''1'']]" Conn 3 1 "\<lambda>bytes. bytes \<le> 48" OutOfMemory]
       a h1 h2 p
  have w3: "NewRedisBloomFilter (\<lambda>bytes. bytes \<le> 48) (Some Conn) 3 1
              [?key \<mapsto> VList [''1'', ''1'']] = Inl OutOfMemory"
    by blast
  from remote_reinit [of "[?key \<mapsto> VList [''1'', [], ''1'']]" Conn 3 1 ample] b
  have w4: "NewRedisBloomFilter ample (Some Conn) 3 1 [?key \<mapsto> VList [''1'', [], ''1'']] =
              Inr (remote_filter 3 1, [?key \<mapsto> VList [''1'', [], ''1'']])"
    by blast
  from a g1 g2 w1 c d w2 h1 h2 w3 b w4 show ?thesis by blast
qed

section \<open>Construction with a zero capacity or a zero hash count\<close>

lemma zero_hash_count_memory:
  assumes "mbf_k m = 0"
  shows "MemoryBloomFilter_Has m x = Inr True" and "MemoryBloomFilter_Put m x = Inr m"
  using assms
  by (simp_all add: MemoryBloomFilter_Has_def MemoryBloomFilter_Put_def
        has_loop.simps [of _ 0] put_loop.simps [of _ 0])

lemma zero_hash_count_remote:
  assumes "rbf_k r = 0"
  shows "RedisBloomFilter_Has r x st = Inr (True, st)" and "RedisBloomFilter_Put r x st = Inr st"
  using assms
  by (simp_all add: RedisBloomFilter_Has_def RedisBloomFilter_Put_def
        rhas_loop.simps [of r x 0] rput_loop.simps [of r x 0])

lemma zero_capacity_remote:
  assumes "rbf_n r = 0" and "0 < rbf_k r"
  shows "RedisBloomFilter_Put r x st = Inl DivideByZero"
    and "RedisBloomFilter_Has r x st = Inl DivideByZero"
  using assms
  by (simp_all add: RedisBloomFilter_Has_def RedisBloomFilter_Put_def
        rhas_loop.simps [of r x 0] rput_loop.simps [of r x 0])

lemma NewMemory_granted:
  assumes "granted heap ((n div 64 + 1) * 8)"
  shows "NewMemoryBloomFilter heap n k = Inr \<lparr>mbf_k = k, mbf_bs = replicate (n div 64 + 1) 0\<rparr>"
  using assms by (simp add: NewMemoryBloomFilter_def NewBitSets_def granted_def)

lemma NewFile_granted:
  assumes "granted heap ((n div 64 + 1) * 8)" and "fs target = None"
  shows "NewFileBloomFilter heap cd fs target n k =
           Inr \<lparr>mbf_k = k, mbf_bs = replicate (n div 64 + 1) 0, fbf_target = target\<rparr>"
  using assms by (simp add: NewFileBloomFilter_def reStore_def NewMemory_granted)

lemma NewRedis_granted:
  assumes "granted heap (n * 16)" and "0 < n \<longrightarrow> granted heap ((n + 1) * 16)"
  shows "\<exists>st'. NewRedisBloomFilter heap (Some c) n k st = Inr (live_filter c n k, st')"
proof (cases "llen st (redisKey (live_filter c n k)) = n")
  case True
  from NewRedis_same_length [OF this] show ?thesis by blast
next
  case False
  from NewRedis_reset [OF this assms] show ?thesis by blast
qed

text \<open>
  C5, as stated, fails: no constructor looks at \<open>n\<close> or \<open>k\<close>.  With capacity 0 the memory
  constructor returns a filter of one word, in which the key "b" tests present after only
  "a" was put; with hash count 0 it returns a filter in which a key that was never put
  tests present; the file constructor returns a filter for \<open>(0, 0)\<close>; the remote
  constructor returns a filter for capacity 0 whose first \<^verbatim>\<open>Put\<close> panics.
\<close>

theorem construction_accepts_zero:
  "NewMemoryBloomFilter ample 0 1 = Inr \<lparr>mbf_k = 1, mbf_bs = [0]\<rparr> \<and>
   MemoryBloomFilter_Put \<lparr>mbf_k = 1, mbf_bs = [0]\<rparr> [0x61] = Inr \<lparr>mbf_k = 1, mbf_bs = [1]\<rparr> \<and>
   MemoryBloomFilter_Has \<lparr>mbf_k = 1, mbf_bs = [1]\<rparr> [0x62] = Inr True \<and>
   NewMemoryBloomFilter ample 64 0 = Inr \<lparr>mbf_k = 0, mbf_bs = [0, 0]\<rparr> \<and>
   MemoryBloomFilter_Has \<lparr>mbf_k = 0, mbf_bs = [0, 0]\<rparr> [0x61] = Inr True \<and>
   NewFileBloomFilter ample plain_codec Map.empty ''bloom.tmp'' 0 0 =
     Inr \<lparr>mbf_k = 0, mbf_bs = [0], fbf_target = ''bloom.tmp''\<rparr> \<and>
   NewRedisBloomFilter ample (Some Conn) 0 1 Map.empty =
     Inr ((remote_filter 0 1), Map.empty) \<and>
   RedisBloomFilter_Put (remote_filter 0 1) [0x61] Map.empty = Inl DivideByZero"
proof (intro conjI)
  show "NewMemoryBloomFilter ample 0 1 = Inr \<lparr>mbf_k = 1, mbf_bs = [0]\<rparr>"
    by (simp add: NewMemoryBloomFilter_def NewBitSets_0)
  show "MemoryBloomFilter_Put \<lparr>mbf_k = 1, mbf_bs = [0]\<rparr> [0x61] = Inr \<lparr>mbf_k = 1, mbf_bs = [1]\<rparr>"
    by (simp add: MemoryBloomFilter_Put_def put_loop.simps BitSets_Set_def)
  show "MemoryBloomFilter_Has \<lparr>mbf_k = 1, mbf_bs = [1]\<rparr> [0x62] = Inr True"
    by (simp add: MemoryBloomFilter_Has_def has_loop.simps BitSets_IsSet_def)
  show "NewMemoryBloomFilter ample 64 0 = Inr \<lparr>mbf_k = 0, mbf_bs = [0, 0]\<rparr>"
    by (rule NewMemoryBloomFilter_64)
  show "MemoryBloomFilter_Has \<lparr>mbf_k = 0, mbf_bs = [0, 0]\<rparr> [0x61] = Inr True"
    by (simp add: zero_hash_count_memory)
  show "NewFileBloomFilter ample plain_codec Map.empty ''bloom.tmp'' 0 0 =
     Inr \<lparr>mbf_k = 0, mbf_bs = [0], fbf_target = ''bloom.tmp''\<rparr>"
    by (simp add: NewFileBloomFilter_def reStore_def NewMemoryBloomFilter_def NewBitSets_0)
  show "NewRedisBloomFilter ample (Some Conn) 0 1 Map.empty =
     Inr ((remote_filter 0 1), Map.empty)"
    by (simp add: NewRedis_same_length llen_def)
  show "RedisBloomFilter_Put (remote_filter 0 1) [0x61] Map.empty = Inl DivideByZero"
    by (simp add: zero_capacity_remote)
qed

text \<open>
  C5, amended.  With capacity 0 or hash count 0 no constructor fails on account of the
  parameters.  The memory constructor returns a filter of \<open>n div 64 + 1\<close> zero words
  whenever the runtime grants these words; the file constructor does the same when there
  is no file at the target; the remote constructor with a live client returns a filter
  whenever the runtime grants its list of \<open>n\<close> elements and its \<open>n + 1\<close> command
  arguments, which for capacity 0 is always.  The parameters show later: with hash count
  0, \<^verbatim>\<open>Has\<close> answers true for every key and \<^verbatim>\<open>Put\<close> changes nothing, on every backend;
  a remote filter of capacity 0 and hash count at least 1, with a live client, panics
  with a division by zero in \<^verbatim>\<open>Put\<close> and in \<^verbatim>\<open>Has\<close>.
\<close>

theorem construction_does_not_validate:
  "(n = 0 \<or> k = 0 \<longrightarrow>
      (granted heap ((n div 64 + 1) * 8) \<longrightarrow>
         NewMemoryBloomFilter heap n k =
           Inr \<lparr>mbf_k = k, mbf_bs = replicate (n div 64 + 1) 0\<rparr>) \<and>
      (granted heap ((n div 64 + 1) * 8) \<longrightarrow> fs target = None \<longrightarrow>
         NewFileBloomFilter heap cd fs target n k =
           Inr \<lparr>mbf_k = k, mbf_bs = replicate (n div 64 + 1) 0, fbf_target = target\<rparr>) \<and>
      (granted heap (n * 16) \<longrightarrow> (0 < n \<longrightarrow> granted heap ((n + 1) * 16)) \<longrightarrow>
         (\<exists>st'. NewRedisBloomFilter heap (Some c) n k st = Inr (live_filter c n k, st')))) \<and>
   (\<exists>st'. NewRedisBloomFilter heap (Some c) 0 k st = Inr (live_filter c 0 k, st')) \<and>
   (mbf_k m = 0 \<longrightarrow> MemoryBloomFilter_Has m x = Inr True \<and> MemoryBloomFilter_Put m x = Inr m) \<and>
   (rbf_k r = 0 \<longrightarrow> RedisBloomFilter_Has r x st = Inr (True, st) \<and> RedisBloomFilter_Put r x st = Inr st) \<and>
   (rbf_n r = 0 \<longrightarrow> 0 < rbf_k r \<longrightarrow> rbf_cli r \<noteq> None \<longrightarrow>
      RedisBloomFilter_Put r x st = Inl DivideByZero \<and> RedisBloomFilter_Has r x st = Inl DivideByZero)"
proof (intro conjI impI)
  assume "granted heap ((n div 64 + 1) * 8)"
  then show "NewMemoryBloomFilter heap n k =
           Inr \<lparr>mbf_k = k, mbf_bs = replicate (n div 64 + 1) 0\<rparr>"
    by (rule NewMemory_granted)
next
  assume "granted heap ((n div 64 + 1) * 8)" and "fs target = None"
  then show "NewFileBloomFilter heap cd fs target n k =
           Inr \<lparr>mbf_k = k, mbf_bs = replicate (n div 64 + 1) 0, fbf_target = target\<rparr>"
    by (rule NewFile_granted)
next
  assume "granted heap (n * 16)" and "0 < n \<longrightarrow> granted heap ((n + 1) * 16)"
  then show "\<exists>st'. NewRedisBloomFilter heap (Some c) n k st = Inr (live_filter c n k, st')"
    by (rule NewRedis_granted)
next
  have "granted heap (0 * 16)" by (simp add: granted_def alloc_fault_def)
  moreover have "0 < (0::nat) \<longrightarrow> granted heap ((0 + 1) * 16)" by simp
  ultimately show "\<exists>st'. NewRedisBloomFilter heap (Some c) 0 k st = Inr (live_filter c 0 k, st')"
    by (rule NewRedis_granted)
next
  assume "mbf_k m = 0"
  then show "MemoryBloomFilter_Has m x = Inr True" and "MemoryBloomFilter_Put m x = Inr m"
    by (rule zero_hash_count_memory)+
next
  assume "rbf_k r = 0"
  then show "RedisBloomFilter_Has r x st = Inr (True, st)" and "RedisBloomFilter_Put r x st = Inr st"
    by (rule zero_hash_count_remote)+
next
  assume "rbf_n r = 0" and "0 < rbf_k r"
  then show "RedisBloomFilter_Put r x st = Inl DivideByZero"
    and "RedisBloomFilter_Has r x st = Inl DivideByZero"
    by (rule zero_capacity_remote)+
qed

theorem construction_does_not_validate_witness:
  "granted ample ((0 div 64 + 1) * 8) \<and>
   NewMemoryBloomFilter ample 0 1 = Inr \<lparr>mbf_k = 1, mbf_bs = [0]\<rparr> \<and>
   NewFileBloomFilter ample plain_codec Map.empty ''bloom.tmp'' 0 1 =
     Inr \<lparr>mbf_k = 1, mbf_bs = [0], fbf_target = ''bloom.tmp''\<rparr> \<and>
   granted ample (0 * 16) \<and>
   (\<exists>st'. NewRedisBloomFilter ample (Some Conn) 0 1 Map.empty =
            Inr ((remote_filter 0 1), st')) \<and>
   granted ample ((64 div 64 + 1) * 8) \<and>
   NewMemoryBloomFilter ample 64 0 = Inr \<lparr>mbf_k = 0, mbf_bs = [0, 0]\<rparr> \<and>
   NewFileBloomFilter ample plain_codec Map.empty ''bloom.tmp'' 64 0 =
     Inr \<lparr>mbf_k = 0, mbf_bs = [0, 0], fbf_target = ''bloom.tmp''\<rparr> \<and>
   granted ample (64 * 16) \<and>
   granted ample ((64 + 1) * 16) \<and>
   (\<exists>st'. NewRedisBloomFilter ample (Some Conn) 64 0 Map.empty =
            Inr ((remote_filter 64 0), st')) \<and>
   mbf_k \<lparr>mbf_k = 0, mbf_bs = [0, 0]\<rparr> = 0 \<and>
   MemoryBloomFilter_Has \<lparr>mbf_k = 0, mbf_bs = [0, 0]\<rparr> [0x61] = Inr True \<and>
   MemoryBloomFilter_Put \<lparr>mbf_k = 0, mbf_bs = [0, 0]\<rparr> [0x61] =
     Inr \<lparr>mbf_k = 0, mbf_bs = [0, 0]\<rparr> \<and>
   rbf_k (remote_filter 64 0) = 0 \<and>
   RedisBloomFilter_Has (remote_filter 64 0) [0x61] Map.empty = Inr (True, Map.empty) \<and>
   RedisBloomFilter_Put (remote_filter 64 0) [0x61] Map.empty = Inr Map.empty \<and>
   rbf_n (remote_filter 0 1) = 0 \<and>
   0 < rbf_k (remote_filter 0 1) \<and>
   rbf_cli (remote_filter 0 1) \<noteq> None \<and>
   RedisBloomFilter_Put (remote_filter 0 1) [0x61] Map.empty = Inl DivideByZero \<and>
   RedisBloomFilter_Has (remote_filter 0 1) [0x61] Map.empty = Inl DivideByZero"
proof -
  have a: "(Map.empty :: BitSets filesystem) ''bloom.tmp'' = None" by simp
  have g: "granted ample ((0 div 64 + 1) * 8)" "granted ample (0 * 16)"
    "granted ample ((64 div 64 + 1) * 8)" "granted ample (64 * 16)"
    "granted ample ((64 + 1) * 16)"
    by (simp_all add: granted_def alloc_fault_def maxAlloc_def)
  have r: "replicate (0 div 64 + 1) (0::int64) = [0]" "replicate (64 div 64 + 1) (0::int64) = [0, 0]"
    by (simp_all add: numeral_2_eq_2)
  from construction_does_not_validate
         [of 0 1 ample "Map.empty :: BitSets filesystem" "''bloom.tmp''"
             "plain_codec" Conn Map.empty
             "\<lparr>mbf_k = 0, mbf_bs = [0, 0]\<rparr>" "[0x61]" "remote_filter 64 0"]
       a g r
  have w1: "NewMemoryBloomFilter ample 0 1 = Inr \<lparr>mbf_k = 1, mbf_bs = [0]\<rparr>"
    "NewFileBloomFilter ample plain_codec Map.empty ''bloom.tmp'' 0 1 =
       Inr \<lparr>mbf_k = 1, mbf_bs = [0], fbf_target = ''bloom.tmp''\<rparr>"
    "\<exists>st'. NewRedisBloomFilter ample (Some Conn) 0 1 Map.empty = Inr ((remote_filter 0 1), st')"
    "MemoryBloomFilter_Has \<lparr>mbf_k = 0, mbf_bs = [0, 0]\<rparr> [0x61] = Inr True"
    "MemoryBloomFilter_Put \<lparr>mbf_k = 0, mbf_bs = [0, 0]\<rparr> [0x61] =
       Inr \<lparr>mbf_k = 0, mbf_bs = [0, 0]\<rparr>"
    "RedisBloomFilter_Has (remote_filter 64 0) [0x61] Map.empty = Inr (True, Map.empty)"
    "RedisBloomFilter_Put (remote_filter 64 0) [0x61] Map.empty = Inr Map.empty"
    by simp_all
  from construction_does_not_validate
         [of 64 0 ample "Map.empty :: BitSets filesystem" "''bloom.tmp''"
             "plain_codec" Conn Map.empty
             "\<lparr>mbf_k = 0, mbf_bs = [0, 0]\<rparr>" "[0x61]" "remote_filter 0 1"]
       a g r
  have w2: "NewMemoryBloomFilter ample 64 0 = Inr \<lparr>mbf_k = 0, mbf_bs = [0, 0]\<rparr>"
    "NewFileBloomFilter ample plain_codec Map.empty ''bloom.tmp'' 64 0 =
       Inr \<lparr>mbf_k = 0, mbf_bs = [0, 0], fbf_target = ''bloom.tmp''\<rparr>"
    "\<exists>st'. NewRedisBloomFilter ample (Some Conn) 64 0 Map.empty = Inr ((remote_filter 64 0), st')"
    "RedisBloomFilter_Put (remote_filter 0 1) [0x61] Map.empty = Inl DivideByZero"
    "RedisBloomFilter_Has (remote_filter 0 1) [0x61] Map.empty = Inl DivideByZero"
    by simp_all
  from g w1 w2 show ?thesis by simp
qed

section \<open>The bit indices of a key\<close>

text \<open>
  What the memory backend does for every capacity: the modulus of a fresh filter is its
  number of words, \<open>n div 64 + 1\<close>.  The bit index is below \<open>n\<close> all the same.
\<close>

lemma fresh_memory_length:
  assumes "NewMemoryBloomFilter heap n k = Inr m"
  shows "length (mbf_bs m) = n div 64 + 1" and "mbf_k m = k"
  using assms
  by (auto simp add: NewMemoryBloomFilter_def NewBitSets_def split: option.splits sum.splits)

lemma fresh_memory_put_sets:
  assumes "NewMemoryBloomFilter heap n k = Inr m"
    and "MemoryBloomFilter_Put m x = Inr m'" and "j < k"
  shows "bit_at (mbf_bs m') (unat (HashData x j) mod (n div 64 + 1))"
proof -
  from assms(3) have "j < mbf_k m"
    by (simp add: fresh_memory_length(2) [OF assms(1)])
  from Put_sets [OF assms(2) this] show ?thesis
    by (simp add: fresh_memory_length(1) [OF assms(1)])
qed

lemma word_modulus_below_capacity:
  assumes "0 < (n::nat)"
  shows "h mod (n div 64 + 1) < n"
proof -
  have "h mod (n div 64 + 1) < n div 64 + 1" by simp
  moreover from assms have "n div 64 < n" by (simp add: div_less_dividend)
  ultimately show ?thesis by linarith
qed

lemma two: "Suc (Suc 0) = 2"
  by simp

lemma Put_a_64:
  "MemoryBloomFilter_Put \<lparr>mbf_k = 1, mbf_bs = [0, 0], \<dots> = z\<rparr> [0x61] =
     Inr \<lparr>mbf_k = 1, mbf_bs = [2, 0], \<dots> = z\<rparr>"
  by (simp add: mem_eval two)

lemma Has_b_64:
  "MemoryBloomFilter_Has \<lparr>mbf_k = 1, mbf_bs = [2, 0], \<dots> = z\<rparr> [0x62] = Inr True"
  by (simp add: mem_eval two)

text \<open>
  C1 at capacity 64, hash count 1 and the key "a".  The index sequence of the
  specification is \<open>[39]\<close>: the hash of the key under seed 0 is 39 modulo 64.
  \<^verbatim>\<open>Put\<close> on a fresh memory-backed filter sets bit 1 of its two words, which is the
  hash modulo the number of words (\<^verbatim>\<open>len(filter.bs)\<close>, here 2), and leaves bit 39 clear.
  \<^verbatim>\<open>Put\<close> on the remote backend writes element 39 of the list.
\<close>

theorem memory_index_is_hash_mod_words:
  "spec_hashes [0x61] 1 64 = [39] \<and>
   unat (HashData [0x61] 0) mod 2 = 1 \<and>
   NewMemoryBloomFilter ample 64 1 = Inr \<lparr>mbf_k = 1, mbf_bs = [0, 0]\<rparr> \<and>
   MemoryBloomFilter_Put \<lparr>mbf_k = 1, mbf_bs = [0, 0]\<rparr> [0x61] =
     Inr \<lparr>mbf_k = 1, mbf_bs = [2, 0]\<rparr> \<and>
   BitSets_IsSet [2, 0] 39 = Inr False \<and>
   BitSets_IsSet [2, 0] 1 = Inr True \<and>
   RedisBloomFilter_Put (remote_filter 64 1) [0x61]
     [redisKey (remote_filter 64 1) \<mapsto> VList (replicate 64 [])] =
     Inr [redisKey (remote_filter 64 1) \<mapsto>
            VList ((replicate 64 [])[39 := ''1''])]"
proof (intro conjI)
  show "spec_hashes [0x61] 1 64 = [39]"
    by (simp add: spec_hashes_def HashData_a_0)
  show "unat (HashData [0x61] 0) mod 2 = 1"
    by (simp add: HashData_a_0)
  show "NewMemoryBloomFilter ample 64 1 = Inr \<lparr>mbf_k = 1, mbf_bs = [0, 0]\<rparr>"
    by (rule NewMemoryBloomFilter_64)
  show "MemoryBloomFilter_Put \<lparr>mbf_k = 1, mbf_bs = [0, 0]\<rparr> [0x61] =
     Inr \<lparr>mbf_k = 1, mbf_bs = [2, 0]\<rparr>"
    by (rule Put_a_64)
  show "BitSets_IsSet [2, 0] 39 = Inr False"
    by (simp add: BitSets_IsSet_def)
  show "BitSets_IsSet [2, 0] 1 = Inr True"
    by (simp add: BitSets_IsSet_def)
  show "RedisBloomFilter_Put (remote_filter 64 1) [0x61]
     [redisKey (remote_filter 64 1) \<mapsto> VList (replicate 64 [])] =
     Inr [redisKey (remote_filter 64 1) \<mapsto>
            VList ((replicate 64 [])[39 := ''1''])]"
    by (simp add: remote_eval)
qed

section \<open>The three backends on one scenario\<close>

lemma NewRedis_64:
  "NewRedisBloomFilter ample (Some Conn) 64 1 Map.empty =
     Inr (remote_filter 64 1, [redisKey (remote_filter 64 1) \<mapsto> VList (replicate 64 [])])"
proof -
  have a: "llen Map.empty (redisKey (remote_filter 64 1)) \<noteq> 64"
    by (simp add: llen_def)
  have g: "granted ample (64 * 16)" "0 < (64::nat) \<longrightarrow> granted ample ((64 + 1) * 16)"
    by (simp_all add: granted_def alloc_fault_def maxAlloc_def)
  from NewRedis_reset [OF a g] show ?thesis by simp
qed

text \<open>
  C2 at capacity 64 and hash count 1: on fresh filters, after \<^verbatim>\<open>Put\<close> of the key "a",
  \<^verbatim>\<open>Has\<close> of the key "b" answers true on the memory backend and on the file backend,
  and false on the remote backend.
\<close>

theorem backends_disagree:
  "memory_scenario ample 64 1 [[0x61]] [0x62] = Inr True \<and>
   file_scenario ample plain_codec ''bloom.tmp'' 64 1 [[0x61]] [0x62] =
     Inr True \<and>
   remote_scenario ample 64 1 [[0x61]] [0x62] = Inr False"
proof (intro conjI)
  show "memory_scenario ample 64 1 [[0x61]] [0x62] = Inr True"
    by (simp only: memory_scenario_def NewMemoryBloomFilter_64
          put_all.simps Put_a_64 Has_b_64 sum.case)
  show "file_scenario ample plain_codec ''bloom.tmp'' 64 1 [[0x61]] [0x62] =
     Inr True"
    by (simp add: file_scenario_def NewFileBloomFilter_def reStore_def NewMemoryBloomFilter_64
          mem_eval two)
  show "remote_scenario ample 64 1 [[0x61]] [0x62] = Inr False"
    unfolding remote_scenario_def NewRedis_64 by (simp add: remote_eval)
qed

end
